theory Spec2Isabelle
  imports Complex_Main
begin

section \<open>Python values shared by the two managers\<close>

text \<open>
  Exceptions of the source become values. \<open>HttpError\<close> stands for whatever the Google API
  client raises from \<open>execute()\<close> or \<open>next_chunk()\<close>; \<open>TypeError\<close> is what Python
  raises for a call whose positional arguments do not fit the callee's signature;
  \<open>OSError\<close> is what opening a local file raises (a directory, an unreadable file).
\<close>

datatype py_error = FileNotFoundError | TypeError | HttpError | OSError

text \<open>Truthiness of an \<open>Optional[str]\<close>: \<open>None\<close> and the empty string are falsy.\<close>

definition truthy :: "string option \<Rightarrow> bool" where
  "truthy v = (case v of None \<Rightarrow> False | Some s \<Rightarrow> s \<noteq> [])"

text \<open>What an f-string prints for an \<open>Optional[str]\<close>.\<close>

definition py_str :: "string option \<Rightarrow> string" where
  "py_str v = (case v of None \<Rightarrow> ''None'' | Some s \<Rightarrow> s)"

text \<open>\<open>str(n)\<close> of a non-negative integer, as the f-string prints the class number.\<close>

fun dec :: "nat \<Rightarrow> string" where
  "dec n = (if n < 10 then [''0123456789'' ! n]
            else dec (n div 10) @ [''0123456789'' ! (n mod 10)])"

declare dec.simps [simp del]

text \<open>\<open>int(x)\<close> of a float truncates towards zero.\<close>

definition py_int :: "rat \<Rightarrow> int" where
  "py_int x = (if 0 \<le> x then \<lfloor>x\<rfloor> else \<lceil>x\<rceil>)"

text \<open>Python's built-in \<open>round(x)\<close> to an integer: nearest, ties to the even neighbour.\<close>

definition py_round :: "rat \<Rightarrow> int" where
  "py_round x =
     (let f = \<lfloor>x\<rfloor>; d = x - of_int f
      in if d < 1 / 2 then f else if 1 / 2 < d then f + 1
         else if even f then f else f + 1)"

section \<open>google\_drive\_manager.py\<close>

subsection \<open>The remote storage API\<close>

text \<open>
  The three requests the manager sends. \<open>FilesList q\<close> is
  \<open>service.files().list(q=q, ...).execute()\<close>; \<open>FilesCreateFolder name parent\<close> is
  \<open>files().create(body={name, mimeType: folder, parents: [parent]}, fields='id').execute()\<close>;
  \<open>NextChunk name parent\<close> is one \<open>request.next_chunk()\<close> of the resumable upload request
  built with metadata \<open>{name, parents: [parent]}\<close>.
\<close>

datatype drive_call =
    FilesList string
  | FilesCreateFolder string string
  | NextChunk string "string option"

text \<open>
  The backend is outside the repository: each answer is an arbitrary function of the
  history of requests sent so far (the request being answered is the last element).
  A listing answers with the ids of the items of \<open>results.get('files', [])\<close>; a folder
  creation with \<open>file.get('id')\<close>; a chunk with the pair \<open>(status, response)\<close>, where
  \<open>status\<close> carries \<open>status.progress()\<close> and a finished \<open>response\<close> carries
  \<open>response.get('id')\<close>. \<open>Inl\<close> is a raised exception.
\<close>

record drive_backend =
  list_resp :: "drive_call list \<Rightarrow> py_error + string list"
  create_resp :: "drive_call list \<Rightarrow> py_error + string option"
  chunk_resp :: "drive_call list \<Rightarrow> py_error + (rat option \<times> string option option)"

definition SHARED_FOLDER_ID :: string where
  "SHARED_FOLDER_ID = ''1etyTblY2gBnmK5gVG4I-sIqQGwrsyw99''"

subsection \<open>get\_or\_create\_folder\<close>

text \<open>The f-string fragment \<open>'{s}'\<close>: the text between two apostrophes.\<close>

definition quoted :: "string \<Rightarrow> string" where
  "quoted s = [CHR 0x27] @ s @ [CHR 0x27]"

definition folder_query :: "string \<Rightarrow> string \<Rightarrow> string" where
  "folder_query folder_name parent_id =
     ''name='' @ quoted folder_name @
     '' and mimeType='application/vnd.google-apps.folder' and '' @ quoted parent_id @
     '' in parents and trashed=false''"

text \<open>\<open>parent_id = parent_id or self.SHARED_FOLDER_ID\<close>\<close>

definition resolve_parent :: "string option \<Rightarrow> string" where
  "resolve_parent parent_id = (if truthy parent_id then the parent_id else SHARED_FOLDER_ID)"

definition get_or_create_folder ::
  "drive_backend \<Rightarrow> string \<Rightarrow> string option \<Rightarrow> drive_call list
     \<Rightarrow> (py_error + string option) \<times> drive_call list" where
  "get_or_create_folder D folder_name parent_id h =
     (let pid = resolve_parent parent_id;
          h1 = h @ [FilesList (folder_query folder_name pid)]
      in case list_resp D h1 of
           Inl e \<Rightarrow> (Inl e, h1)
         | Inr items \<Rightarrow>
             (case items of
                x # _ \<Rightarrow> (Inr (Some x), h1)
              | [] \<Rightarrow>
                  (let h2 = h1 @ [FilesCreateFolder folder_name pid]
                   in case create_resp D h2 of
                        Inl e \<Rightarrow> (Inl e, h2)
                      | Inr fid \<Rightarrow> (Inr fid, h2))))"

definition get_or_create_class_year_folder ::
  "drive_backend \<Rightarrow> string \<Rightarrow> string \<Rightarrow> drive_call list
     \<Rightarrow> (py_error + string option) \<times> drive_call list" where
  "get_or_create_class_year_folder D class_name year h =
     get_or_create_folder D (class_name @ ''_'' @ year) None h"

definition get_or_create_chapter_folder ::
  "drive_backend \<Rightarrow> string \<Rightarrow> string option \<Rightarrow> drive_call list
     \<Rightarrow> (py_error + string option) \<times> drive_call list" where
  "get_or_create_chapter_folder D chapter_name class_year_folder_id h =
     get_or_create_folder D chapter_name class_year_folder_id h"

subsection \<open>count\_files\_in\_folder\<close>

definition files_query :: "string \<Rightarrow> string option \<Rightarrow> string" where
  "files_query folder_id file_extension =
     quoted folder_id @ '' in parents and trashed=false'' @
     (if truthy file_extension
      then '' and name contains '' @ quoted (''.'' @ the file_extension)
      else [])"

definition subfolders_query :: "string \<Rightarrow> string" where
  "subfolders_query folder_id =
     quoted folder_id @
     '' in parents and mimeType='application/vnd.google-apps.folder' and trashed=false''"

text \<open>
  The recursion follows the folders the backend lists, so nothing in the code bounds it.
  The first argument is the number of nested calls allowed; the result \<open>None\<close> means the
  call did not return within it. Every exception of the body is caught by the
  \<open>except Exception\<close> of the same call, which returns 0.
\<close>

fun count_files_in_folder ::
  "drive_backend \<Rightarrow> nat \<Rightarrow> string \<Rightarrow> string option \<Rightarrow> drive_call list
     \<Rightarrow> nat option \<times> drive_call list" where
  "count_files_in_folder D 0 folder_id file_extension h = (None, h)"
| "count_files_in_folder D (Suc depth) folder_id file_extension h =
     (let h1 = h @ [FilesList (files_query folder_id file_extension)]
      in case list_resp D h1 of
           Inl e \<Rightarrow> (Some 0, h1)
         | Inr files \<Rightarrow>
             (let h2 = h1 @ [FilesList (subfolders_query folder_id)]
              in case list_resp D h2 of
                   Inl e \<Rightarrow> (Some 0, h2)
                 | Inr subfolders \<Rightarrow>
                     fold (\<lambda>subfolder (total_count, lg).
                             case total_count of
                               None \<Rightarrow> (None, lg)
                             | Some t \<Rightarrow>
                                 (case count_files_in_folder D depth subfolder file_extension lg of
                                    (None, lg') \<Rightarrow> (None, lg')
                                  | (Some c, lg') \<Rightarrow> (Some (t + c), lg')))
                          subfolders (Some (length files), h2)))"

subsection \<open>upload\_file\<close>

text \<open>
  \<open>os.path.splitext\<close> (\<open>genericpath._splitext\<close>): the extension starts at the last dot
  of the last path component, unless only dots precede it there. \<open>seps\<close> holds
  \<open>os.sep\<close> and, where the platform has one, \<open>os.altsep\<close>.
\<close>

definition splitext :: "char list \<Rightarrow> string \<Rightarrow> string \<times> string" where
  "splitext seps p =
     (let base = rev (takeWhile (\<lambda>c. c \<notin> set seps) (rev p));
          ext_tail = rev (takeWhile (\<lambda>c. c \<noteq> CHR ''.'') (rev base));
          before = take (length base - length ext_tail - 1) base
      in if CHR ''.'' \<in> set base \<and> (\<exists>c \<in> set before. c \<noteq> CHR ''.'')
         then (take (length p - length ext_tail - 1) p, CHR ''.'' # ext_tail)
         else (p, []))"

record date =
  d_day :: nat
  d_month :: nat
  d_year :: nat

definition zero_pad :: "nat \<Rightarrow> string \<Rightarrow> string" where
  "zero_pad w s = replicate (w - length s) CHR ''0'' @ s"

text \<open>\<open>strftime('%d-%m-%Y')\<close>: day and month on two digits, the year on four.\<close>

definition strftime_dmy :: "date \<Rightarrow> string" where
  "strftime_dmy d =
     zero_pad 2 (dec (d_day d)) @ ''-'' @ zero_pad 2 (dec (d_month d)) @ ''-'' @
     zero_pad 4 (dec (d_year d))"

text \<open>
  What \<open>upload_file\<close> reads from outside the manager: \<open>os.path.exists\<close>, the path
  separators, \<open>datetime.now()\<close>, whether \<open>MediaFileUpload(filepath, ...)\<close> can open the
  local file (it cannot open a directory or an unreadable file, and raises), and the
  floating-point product \<open>status.progress() * 100\<close> (a float is a rational; the product
  is rounded by the machine, so it is not fixed here).
\<close>

record upload_env =
  path_exists :: "string \<Rightarrow> bool"
  path_seps :: "char list"
  today :: date
  media_open_ok :: "string \<Rightarrow> bool"
  times_100 :: "rat \<Rightarrow> rat"

text \<open>
  The \<open>progress_callback\<close> argument: absent (or falsy), a function (taken to return
  normally), or a truthy object that cannot be called. The values a function receives are
  recorded in a trace.
\<close>

datatype callback = NoCallback | Callback | NotCallable

definition new_filename ::
  "string \<Rightarrow> string \<Rightarrow> string \<Rightarrow> date \<Rightarrow> nat \<Rightarrow> string \<Rightarrow> string" where
  "new_filename class_name chapter_name subtopic_name d class_number ext =
     class_name @ ''_'' @ chapter_name @ ''_'' @ subtopic_name @ ''_'' @ strftime_dmy d @
     ''_Class_'' @ dec class_number @ ext"

text \<open>
  The loop \<open>while response is None\<close>. Nothing in the code bounds it: the first argument
  is the number of chunks allowed, and the outcome \<open>None\<close> means the loop did not end
  within it.
\<close>

fun upload_loop ::
  "drive_backend \<Rightarrow> upload_env \<Rightarrow> callback \<Rightarrow> nat \<Rightarrow> string \<Rightarrow> string option
     \<Rightarrow> drive_call list \<Rightarrow> int list
     \<Rightarrow> (py_error + string option) option \<times> drive_call list \<times> int list" where
  "upload_loop D env cb 0 name parent h tr = (None, h, tr)"
| "upload_loop D env cb (Suc fuel) name parent h tr =
     (let h1 = h @ [NextChunk name parent]
      in case chunk_resp D h1 of
           Inl e \<Rightarrow> (Some (Inl e), h1, tr)
         | Inr (status, response) \<Rightarrow>
             (case (status, cb) of
                (Some p, NotCallable) \<Rightarrow> (Some (Inl TypeError), h1, tr)
              | _ \<Rightarrow>
                  (let tr1 = (case (status, cb) of
                                (Some p, Callback) \<Rightarrow> tr @ [py_int (times_100 env p)]
                              | _ \<Rightarrow> tr)
                   in case response of
                        None \<Rightarrow> upload_loop D env cb fuel name parent h1 tr1
                      | Some r \<Rightarrow> (Some (Inr r), h1, tr1))))"

text \<open>
  \<open>upload_file\<close>; \<open>depth\<close> and \<open>fuel\<close> are the bounds of the count and of the chunk loop.
  The result is the outcome (\<open>Inl\<close> the exception re-raised by the handler, \<open>Inr\<close> the
  returned \<open>file_id\<close>), the requests sent, and the values the callback received.
\<close>

definition upload_file ::
  "drive_backend \<Rightarrow> upload_env \<Rightarrow> nat \<Rightarrow> nat \<Rightarrow> string \<Rightarrow> string \<Rightarrow> string \<Rightarrow> string
     \<Rightarrow> string \<Rightarrow> callback \<Rightarrow> drive_call list
     \<Rightarrow> (py_error + string option) option \<times> drive_call list \<times> int list" where
  "upload_file D env depth fuel filepath class_name chapter_name year subtopic_name cb h =
     (if \<not> path_exists env filepath then (Some (Inl FileNotFoundError), h, [])
      else
        case get_or_create_class_year_folder D class_name year h of
          (Inl e, h1) \<Rightarrow> (Some (Inl e), h1, [])
        | (Inr class_year_folder_id, h1) \<Rightarrow>
        case get_or_create_chapter_folder D chapter_name class_year_folder_id h1 of
          (Inl e, h2) \<Rightarrow> (Some (Inl e), h2, [])
        | (Inr chapter_folder_id, h2) \<Rightarrow>
        case get_or_create_folder D subtopic_name chapter_folder_id h2 of
          (Inl e, h3) \<Rightarrow> (Some (Inl e), h3, [])
        | (Inr subtopic_folder_id, h3) \<Rightarrow>
        case count_files_in_folder D depth (py_str chapter_folder_id) (Some ''mp4'') h3 of
          (None, h4) \<Rightarrow> (None, h4, [])
        | (Some file_count, h4) \<Rightarrow>
            (let class_number = file_count + 1;
                 ext = snd (splitext (path_seps env) filepath);
                 new_name = new_filename class_name chapter_name subtopic_name (today env)
                              class_number ext
             in if \<not> media_open_ok env filepath then (Some (Inl OSError), h4, [])
                else upload_loop D env cb fuel new_name subtopic_folder_id h4 []))"

text \<open>
  A call \<open>upload_file(*args)\<close> with positional string arguments, bound to the signature
  \<open>(filepath, class_name, chapter_name, year, subtopic_name="Main", progress_callback=None)\<close>.
  Fewer than four or more than six arguments raise \<open>TypeError\<close> before the body runs; a
  sixth one is taken as the callback.
\<close>

definition upload_file_positional ::
  "drive_backend \<Rightarrow> upload_env \<Rightarrow> nat \<Rightarrow> nat \<Rightarrow> string list \<Rightarrow> drive_call list
     \<Rightarrow> (py_error + string option) option \<times> drive_call list \<times> int list" where
  "upload_file_positional D env depth fuel args h =
     (case args of
        [filepath, class_name, chapter_name, yr] \<Rightarrow>
          upload_file D env depth fuel filepath class_name chapter_name yr ''Main'' NoCallback h
      | [filepath, class_name, chapter_name, yr, subtopic_name] \<Rightarrow>
          upload_file D env depth fuel filepath class_name chapter_name yr subtopic_name
            NoCallback h
      | [filepath, class_name, chapter_name, yr, subtopic_name, c] \<Rightarrow>
          upload_file D env depth fuel filepath class_name chapter_name yr subtopic_name
            (if c = [] then NoCallback else NotCallable) h
      | _ \<Rightarrow> (Some (Inl TypeError), h, []))"

section \<open>obs\_manager.py\<close>

subsection \<open>The capture backend\<close>

datatype obs_call =
    GetRecordStatus
  | StartRecord
  | StopRecord
  | SetRecordDirectory string
  | SetProfileParameter string string string

text \<open>
  An answer of the websocket client: the call raises, or returns an object that may or
  may not have the attributes \<open>output_active\<close> and \<open>output_path\<close> (the code asks with
  \<open>hasattr\<close>). As for the storage API, an answer is an arbitrary function of the calls
  made so far, the call being answered last.
\<close>

datatype obs_resp = Raises | Resp "bool option" "string option"

type_synonym obs_backend = "obs_call list \<Rightarrow> obs_resp"

text \<open>
  The fields of \<open>OBSManager\<close> the recording operations read or write.
  \<open>methods_tried\<close> is \<open>debug_info['recording_methods_tried']\<close>, each entry the
  \<open>method\<close> and \<open>success\<close> keys of a \<open>method_info\<close> dictionary; \<open>calls\<close> is the
  history of calls made on \<open>self.client\<close>.
\<close>

record obs_manager =
  is_connected :: bool
  is_recording :: bool
  has_scenes :: bool
  recording_path :: "string option"
  recording_filename :: "string option"
  last_recording_path :: "string option"
  methods_tried :: "(string \<times> bool) list"
  calls :: "obs_call list"

definition client_call :: "obs_backend \<Rightarrow> obs_call \<Rightarrow> obs_manager \<Rightarrow> obs_resp \<times> obs_manager" where
  "client_call B c st = (B (calls st @ [c]), st\<lparr>calls := calls st @ [c]\<rparr>)"

definition disconnect :: "obs_manager \<Rightarrow> obs_manager" where
  "disconnect st = st\<lparr>is_connected := False\<rparr>"

subsection \<open>start\_recording\<close>

text \<open>The \<open>pathlib.Path\<close> argument, by the two parts the code reads.\<close>

record py_path =
  path_parent :: string
  path_stem :: string

text \<open>
  The output-directory checks: whether \<open>output_path.parent\<close> exists, whether \<open>mkdir\<close>
  succeeds, and whether the test file can be written and removed.
\<close>

record dir_env =
  parent_exists :: bool
  mkdir_ok :: bool
  dir_writable :: bool

definition check_recording_status :: "obs_backend \<Rightarrow> obs_manager \<Rightarrow> bool \<times> obs_manager" where
  "check_recording_status B st =
     (case client_call B GetRecordStatus st of
        (Raises, st1) \<Rightarrow> (True, st1)
      | (Resp None _, st1) \<Rightarrow> (True, st1)
      | (Resp (Some recording) _, st1) \<Rightarrow> (recording, st1))"

text \<open>
  \<open>method_info\<close> is appended to the list first and updated in place afterwards.
\<close>

definition begin_method :: "string \<Rightarrow> obs_manager \<Rightarrow> obs_manager" where
  "begin_method m st = st\<lparr>methods_tried := methods_tried st @ [(m, False)]\<rparr>"

definition method_succeeded :: "obs_manager \<Rightarrow> obs_manager" where
  "method_succeeded st =
     st\<lparr>methods_tried :=
          (methods_tried st)[length (methods_tried st) - 1 :=
             (fst (last (methods_tried st)), True)],
        is_recording := True\<rparr>"

text \<open>The common tail of the three methods: start, then verify.\<close>

definition start_and_verify :: "obs_backend \<Rightarrow> obs_manager \<Rightarrow> bool \<times> obs_manager" where
  "start_and_verify B st =
     (case client_call B StartRecord st of
        (Raises, st1) \<Rightarrow> (False, st1)
      | (Resp _ _, st1) \<Rightarrow>
          (case check_recording_status B st1 of
             (True, st2) \<Rightarrow> (True, method_succeeded st2)
           | (False, st2) \<Rightarrow> (False, st2)))"

definition try_recording_method_1 ::
  "obs_backend \<Rightarrow> py_path \<Rightarrow> obs_manager \<Rightarrow> bool \<times> obs_manager" where
  "try_recording_method_1 B output_path st =
     (let st0 = begin_method ''SetOutputDirectory'' st;
          st1 = snd (client_call B (SetRecordDirectory (path_parent output_path)) st0)
      in start_and_verify B st1)"

definition try_recording_method_2 ::
  "obs_backend \<Rightarrow> py_path \<Rightarrow> obs_manager \<Rightarrow> bool \<times> obs_manager" where
  "try_recording_method_2 B output_path st =
     (let st0 = begin_method ''ProfileParameters'' st;
          st1 = snd (client_call B
                  (SetProfileParameter ''Output'' ''RecFilePath'' (path_parent output_path)) st0);
          st2 = snd (client_call B (SetProfileParameter ''Output'' ''RecFormat'' ''mp4'') st1)
      in start_and_verify B st2)"

definition try_recording_method_3 ::
  "obs_backend \<Rightarrow> py_path \<Rightarrow> obs_manager \<Rightarrow> bool \<times> obs_manager" where
  "try_recording_method_3 B output_path st =
     start_and_verify B (begin_method ''DirectStart'' st)"

text \<open>The status query before the methods: a running recording is stopped first.\<close>

definition stop_existing :: "obs_backend \<Rightarrow> obs_manager \<Rightarrow> obs_manager" where
  "stop_existing B st =
     (case client_call B GetRecordStatus st of
        (Resp (Some True) _, st1) \<Rightarrow> snd (client_call B StopRecord st1)
      | (_, st1) \<Rightarrow> st1)"

definition start_recording ::
  "obs_backend \<Rightarrow> dir_env \<Rightarrow> py_path \<Rightarrow> obs_manager \<Rightarrow> bool \<times> obs_manager" where
  "start_recording B env output_path st =
     (if \<not> is_connected st then (False, st)
      else
        (let st0 = st\<lparr>has_scenes := True, methods_tried := []\<rparr>
         in if \<not> parent_exists env \<and> \<not> mkdir_ok env then (False, st0)
            else if \<not> dir_writable env then (False, st0)
            else
              (let st1 = st0\<lparr>recording_filename := Some (path_stem output_path),
                             recording_path := Some (path_parent output_path)\<rparr>;
                   st2 = stop_existing B st1
               in case try_recording_method_1 B output_path st2 of
                    (True, st3) \<Rightarrow> (True, st3)
                  | (False, st3) \<Rightarrow>
                 (case try_recording_method_2 B output_path st3 of
                    (True, st4) \<Rightarrow> (True, st4)
                  | (False, st4) \<Rightarrow>
                 (case try_recording_method_3 B output_path st4 of
                    (True, st5) \<Rightarrow> (True, st5)
                  | (False, st5) \<Rightarrow> (True, st5\<lparr>is_recording := True\<rparr>))))))"

subsection \<open>stop\_recording\<close>

text \<open>
  The file system as \<open>stop_recording\<close> sees it: \<open>os.path.exists\<close>, whether
  \<open>os.path.getsize\<close> succeeds, and \<open>os.path.join\<close>.
\<close>

record fs_env =
  os_path_exists :: "string \<Rightarrow> bool"
  os_getsize_ok :: "string \<Rightarrow> bool"
  os_path_join :: "string \<Rightarrow> string \<Rightarrow> string"

definition possible_extensions :: "string list" where
  "possible_extensions = [''.mp4'', ''.mkv'', ''.flv'', ''.mov'', ''.avi'']"

definition check_recording_output_exists :: "fs_env \<Rightarrow> obs_manager \<Rightarrow> obs_manager" where
  "check_recording_output_exists fs st =
     (if \<not> truthy (recording_path st) \<or> \<not> truthy (recording_filename st) then st
      else
        case find (os_path_exists fs)
               (map (\<lambda>ext. os_path_join fs (the (recording_path st))
                               (the (recording_filename st) @ ext))
                  possible_extensions) of
          None \<Rightarrow> st
        | Some recording_file \<Rightarrow>
            if recording_file = [] then st
            else st\<lparr>last_recording_path := Some recording_file\<rparr>)"

definition stop_recording :: "obs_backend \<Rightarrow> fs_env \<Rightarrow> obs_manager \<Rightarrow> bool \<times> obs_manager" where
  "stop_recording B fs st =
     (if \<not> is_connected st then (False, st)
      else
        (let (r0, st1) = client_call B GetRecordStatus st;
             st2 = (case r0 of
                      Resp (Some False) _ \<Rightarrow> st1\<lparr>is_recording := False\<rparr>
                    | _ \<Rightarrow> st1);
             (r1, st3) = client_call B StopRecord st2;
             (output_path, st4) =
               (case r1 of
                  Raises \<Rightarrow> (None, st3\<lparr>is_recording := False\<rparr>)
                | Resp _ None \<Rightarrow> (None, st3\<lparr>is_recording := False\<rparr>)
                | Resp _ (Some p) \<Rightarrow>
                    (Some p, st3\<lparr>last_recording_path := Some p, is_recording := False\<rparr>));
             st5 = snd (client_call B GetRecordStatus st4)
         in if truthy output_path then
              (if os_path_exists fs (the output_path) then
                 (if os_getsize_ok fs (the output_path) then
                    (True, if truthy (last_recording_path st5) then st5
                           else st5\<lparr>last_recording_path := output_path\<rparr>)
                  else (False, st5\<lparr>is_recording := False\<rparr>))
               else (True, check_recording_output_exists fs st5))
            else (True, check_recording_output_exists fs st5)))"

subsection \<open>upload\_last\_recording\<close>

text \<open>
  The call \<open>self.drive_manager.upload_file(self.last_recording_path)\<close> passes one
  positional argument; whatever it raises is caught and turned into \<open>None\<close>. The result is
  the returned value and the requests sent to the storage API.
\<close>

definition upload_last_recording ::
  "drive_backend \<Rightarrow> upload_env \<Rightarrow> nat \<Rightarrow> nat \<Rightarrow> obs_manager \<Rightarrow> drive_call list
     \<Rightarrow> string option option \<times> drive_call list" where
  "upload_last_recording D env depth fuel st h =
     (if \<not> truthy (last_recording_path st) then (Some None, h)
      else if \<not> path_exists env (the (last_recording_path st)) then (Some None, h)
      else
        case upload_file_positional D env depth fuel [the (last_recording_path st)] h of
          (None, h1, _) \<Rightarrow> (None, h1)
        | (Some (Inl upload_error), h1, _) \<Rightarrow> (Some None, h1)
        | (Some (Inr file_id), h1, _) \<Rightarrow> (Some file_id, h1))"

section \<open>main\_window.py: rename\_recording\_file\<close>

text \<open>
  A path is the pair of its parent directory and its name (\<open>target_dir / name\<close>); the
  file system is the list of the paths that exist.
\<close>

type_synonym path = "string \<times> string"

text \<open>\<open>desired_filename.rsplit('.', 1)\<close>\<close>

definition rsplit_dot :: "string \<Rightarrow> string list" where
  "rsplit_dot s =
     (let tail = rev (takeWhile (\<lambda>c. c \<noteq> CHR ''.'') (rev s))
      in if CHR ''.'' \<in> set s then [take (length s - length tail - 1) s, tail] else [s])"

definition suffixed_name :: "string \<Rightarrow> nat \<Rightarrow> string" where
  "suffixed_name desired_filename counter =
     (case rsplit_dot desired_filename of
        [a, b] \<Rightarrow> a @ ''_'' @ dec counter @ ''.'' @ b
      | _ \<Rightarrow> desired_filename @ ''_'' @ dec counter)"

text \<open>
  Reading a decimal numeral back, used to show that different counters give different
  names.
\<close>

definition digit_val :: "char \<Rightarrow> nat" where
  "digit_val c =
     (if c = CHR ''1'' then 1 else if c = CHR ''2'' then 2 else if c = CHR ''3'' then 3
      else if c = CHR ''4'' then 4 else if c = CHR ''5'' then 5 else if c = CHR ''6'' then 6
      else if c = CHR ''7'' then 7 else if c = CHR ''8'' then 8 else if c = CHR ''9'' then 9
      else 0)"

definition undec :: "string \<Rightarrow> nat" where
  "undec s = foldl (\<lambda>a c. 10 * a + digit_val c) 0 s"

text \<open>
  The loop \<open>while target_path.exists()\<close>, with the loop variables \<open>target_path\<close> and
  \<open>counter\<close>. It ends because the names of different counters differ and the directory
  holds finitely many files.
\<close>

function resolve_target :: "path list \<Rightarrow> string \<Rightarrow> string \<Rightarrow> path \<Rightarrow> nat \<Rightarrow> path" where
  "resolve_target files target_dir desired_filename target_path counter =
     (if target_path \<in> set files
      then resolve_target files target_dir desired_filename
             (target_dir, suffixed_name desired_filename counter) (Suc counter)
      else target_path)"
  by pat_completeness auto
termination
proof (relation "measure (\<lambda>(files, target_dir, desired, target_path, counter).
          if target_path \<in> set files
          then Suc (card {j. counter \<le> j \<and> (target_dir, suffixed_name desired j) \<in> set files})
          else 0)")
  show "wf (measure (\<lambda>(files, target_dir, desired, target_path, counter).
          if target_path \<in> set files
          then Suc (card {j. counter \<le> j \<and> (target_dir, suffixed_name desired j) \<in> set files})
          else 0))"
    by simp
next
  fix files :: "path list" and target_dir desired :: string and target_path :: path
    and counter :: nat
  assume taken: "target_path \<in> set files"
  let ?A = "\<lambda>c. {j. c \<le> j \<and> (target_dir, suffixed_name desired j) \<in> set files}"
  have digit: "digit_val (''0123456789'' ! k) = k" if "k < 10" for k
  proof -
    from that consider "k = 0" | "k = 1" | "k = 2" | "k = 3" | "k = 4" | "k = 5" | "k = 6"
      | "k = 7" | "k = 8" | "k = 9"
      by atomize_elim arith
    then show ?thesis by cases (simp_all add: digit_val_def)
  qed
  have undec_dec: "undec (dec n) = n" for n
  proof (induction n rule: dec.induct)
    case (1 n)
    show ?case
    proof (cases "n < 10")
      case True
      then show ?thesis by (subst dec.simps) (simp add: undec_def digit)
    next
      case False
      then have ih: "undec (dec (n div 10)) = n div 10" using 1 by simp
      have "undec (dec n) =
              10 * undec (dec (n div 10)) + digit_val (''0123456789'' ! (n mod 10))"
        using False by (subst dec.simps) (simp add: undec_def)
      also have "\<dots> = 10 * (n div 10) + n mod 10" by (simp add: ih digit)
      finally show ?thesis by simp
    qed
  qed
  have dec_inj: "a = b" if "dec a = dec b" for a b
    using that undec_dec by metis
  have name_inj: "a = b" if "suffixed_name desired a = suffixed_name desired b" for a b
    using that by (auto simp: suffixed_name_def dest: dec_inj split: list.splits)
  have "inj (\<lambda>j. (target_dir, suffixed_name desired j))"
    by (rule injI) (auto dest: name_inj)
  then have "finite ((\<lambda>j. (target_dir, suffixed_name desired j)) -` set files)"
    by (intro finite_vimageI) simp_all
  moreover have "?A counter \<subseteq> (\<lambda>j. (target_dir, suffixed_name desired j)) -` set files"
    by auto
  ultimately have fin: "finite (?A counter)" by (rule rev_finite_subset)
  have less: "card (?A (Suc counter)) < card (?A counter)"
    if next_taken: "(target_dir, suffixed_name desired counter) \<in> set files"
  proof -
    have "?A (Suc counter) \<subseteq> ?A counter" by auto
    moreover have "counter \<in> ?A counter" using next_taken by simp
    moreover have "counter \<notin> ?A (Suc counter)" by simp
    ultimately have "?A (Suc counter) \<subset> ?A counter" by blast
    then show ?thesis using fin by (rule psubset_card_mono[rotated])
  qed
  show "((files, target_dir, desired, (target_dir, suffixed_name desired counter), Suc counter),
         (files, target_dir, desired, target_path, counter))
        \<in> measure (\<lambda>(files, target_dir, desired, target_path, counter).
             if target_path \<in> set files
             then Suc (card {j. counter \<le> j \<and>
                                (target_dir, suffixed_name desired j) \<in> set files})
             else 0)"
    using taken less by simp
qed

declare resolve_target.simps [simp del]

text \<open>
  \<open>rename_recording_file\<close>: the outcome is the new path, or the fall-back
  \<open>search_for_recordings\<close> when the source is missing or \<open>rename\<close> raises
  (\<open>rename_ok\<close> false). The second component is the file system afterwards.
\<close>

datatype rename_result = Renamed path | SearchForRecordings

definition rename_recording_file ::
  "path list \<Rightarrow> bool \<Rightarrow> string \<Rightarrow> path \<Rightarrow> rename_result \<times> path list" where
  "rename_recording_file files rename_ok desired_filename actual_path =
     (if actual_path \<notin> set files then (SearchForRecordings, files)
      else
        (let target_dir = fst actual_path;
             target_path = resolve_target files target_dir desired_filename
                             (target_dir, desired_filename) 1
         in if rename_ok
            then (Renamed target_path, target_path # removeAll actual_path files)
            else (SearchForRecordings, files)))"

section \<open>Backend assumptions and reference backends\<close>



text \<open>
  A backend whose folders form a well-founded hierarchy: every folder it lists as a
  subfolder has a smaller rank than the folder listed.
\<close>

definition folders_descend :: "drive_backend \<Rightarrow> (string \<Rightarrow> nat) \<Rightarrow> bool" where
  "folders_descend D rank =
     (\<forall>h folder_id subfolders.
        list_resp D (h @ [FilesList (subfolders_query folder_id)]) = Inr subfolders \<longrightarrow>
        (\<forall>s \<in> set subfolders. rank s < rank folder_id))"

text \<open>
  A reference backend that stores folders: it replays the history (latest request first),
  names the folder of the request at position \<open>i\<close> \<open>folder<i>\<close>, and answers a listing
  with the folders whose own lookup query is the query asked, oldest first.
\<close>

fun created_folders :: "drive_call list \<Rightarrow> (string \<times> string) list" where
  "created_folders [] = []"
| "created_folders (c # cs) =
     (case c of
        FilesCreateFolder n p \<Rightarrow>
          (folder_query n p, ''folder'' @ dec (length cs)) # created_folders cs
      | _ \<Rightarrow> created_folders cs)"

definition sim_drive :: drive_backend where
  "sim_drive =
     \<lparr>list_resp = (\<lambda>h. case rev h of
                     FilesList q # cs \<Rightarrow>
                       Inr (rev (map snd (filter (\<lambda>e. fst e = q) (created_folders cs))))
                   | _ \<Rightarrow> Inl HttpError),
      create_resp = (\<lambda>h. Inr (Some (''folder'' @ dec (length h - 1)))),
      chunk_resp = (\<lambda>h. Inr (None, Some (Some ''file'')))\<rparr>"

text \<open>An environment in which no local file exists.\<close>

definition no_files :: upload_env where
  "no_files = \<lparr>path_exists = (\<lambda>p. False), path_seps = ''/'',
               today = \<lparr>d_day = 1, d_month = 1, d_year = 2024\<rparr>,
               media_open_ok = (\<lambda>p. False), times_100 = (\<lambda>p. p * 100)\<rparr>"

text \<open>
  A backend with a chapter folder holding two recordings and one subfolder; every other
  listing fails.
\<close>

definition flaky_drive :: drive_backend where
  "flaky_drive =
     \<lparr>list_resp = (\<lambda>h. case rev h of
                     FilesList q # _ \<Rightarrow>
                       if q = subfolders_query ''chapter'' then Inr [''subtopic'']
                       else if q = files_query ''chapter'' (Some ''mp4'') then Inr [''a'', ''b'']
                       else Inl HttpError
                   | _ \<Rightarrow> Inl HttpError),
      create_resp = (\<lambda>h. Inl HttpError),
      chunk_resp = (\<lambda>h. Inl HttpError)\<rparr>"

definition flaky_rank :: "string \<Rightarrow> nat" where
  "flaky_rank s = (if s = ''chapter'' then 1 else 0)"

text \<open>
  The progress values the backend reported in the chunk answers of the requests sent after
  the history \<open>h\<close>, in order: the \<open>status.progress()\<close> of every \<open>next_chunk()\<close> that
  returned a status.
\<close>

definition reported_progress ::
  "drive_backend \<Rightarrow> drive_call list \<Rightarrow> drive_call list \<Rightarrow> rat list" where
  "reported_progress D h h' =
     concat (map (\<lambda>k. case h' ! k of
                         NextChunk _ _ \<Rightarrow>
                           (case chunk_resp D (take (Suc k) h') of
                              Inr (Some p, _) \<Rightarrow> [p]
                            | _ \<Rightarrow> [])
                       | _ \<Rightarrow> [])
               [length h ..< length h'])"

definition is_chunk :: "drive_call \<Rightarrow> bool" where
  "is_chunk c = (case c of NextChunk _ _ \<Rightarrow> True | _ \<Rightarrow> False)"

text \<open>
  One upload, end to end: the local file \<open>videos/lesson.mp4\<close> exists, the three folders
  exist, the chapter folder has two subtopic folders, \<open>Main\<close> (the one uploaded to) and
  a second one, each holding one recording, and the transfer takes two chunks; the first
  reports the progress 15/32 and the second returns the response without a status. The
  product \<open>15/32 * 100\<close> is exact in binary floating point.
\<close>

definition lesson_env :: upload_env where
  "lesson_env = \<lparr>path_exists = (\<lambda>p. p = ''videos/lesson.mp4''), path_seps = ''/'',
                  today = \<lparr>d_day = 1, d_month = 1, d_year = 2024\<rparr>,
                  media_open_ok = (\<lambda>p. p = ''videos/lesson.mp4''),
                  times_100 = (\<lambda>p. p * 100)\<rparr>"

definition lesson_drive :: drive_backend where
  "lesson_drive =
     \<lparr>list_resp = (\<lambda>h. case rev h of
                     FilesList q # _ \<Rightarrow>
                       if q = folder_query ''11th_2024'' SHARED_FOLDER_ID then Inr [''classyear'']
                       else if q = folder_query ''Thermodynamics'' ''classyear'' then Inr [''chapter'']
                       else if q = folder_query ''Main'' ''chapter'' then Inr [''subtopic'']
                       else if q = subfolders_query ''chapter''
                         then Inr [''subtopic'', ''revision'']
                       else if q = files_query ''subtopic'' (Some ''mp4'') then Inr [''rec1'']
                       else if q = files_query ''revision'' (Some ''mp4'') then Inr [''rec2'']
                       else Inr []
                   | _ \<Rightarrow> Inl HttpError),
      create_resp = (\<lambda>h. Inl HttpError),
      chunk_resp = (\<lambda>h. if length (filter is_chunk h) = 1 then Inr (Some (15 / 32), None)
                         else Inr (None, Some (Some ''file1'')))\<rparr>"

definition lesson_name :: string where
  "lesson_name = ''11th_Thermodynamics_Main_01-01-2024_Class_3.mp4''"

definition lesson_h3 :: "drive_call list" where
  "lesson_h3 = [FilesList (folder_query ''11th_2024'' SHARED_FOLDER_ID),
                FilesList (folder_query ''Thermodynamics'' ''classyear''),
                FilesList (folder_query ''Main'' ''chapter'')]"

definition lesson_h4 :: "drive_call list" where
  "lesson_h4 = lesson_h3 @
               [FilesList (files_query ''chapter'' (Some ''mp4'')),
                FilesList (subfolders_query ''chapter''),
                FilesList (files_query ''subtopic'' (Some ''mp4'')),
                FilesList (subfolders_query ''subtopic''),
                FilesList (files_query ''revision'' (Some ''mp4'')),
                FilesList (subfolders_query ''revision'')]"

text \<open>A controller whose last recording is that file.\<close>

definition lesson_recorded :: obs_manager where
  "lesson_recorded =
     \<lparr>is_connected = True, is_recording = False, has_scenes = True,
      recording_path = Some ''videos'', recording_filename = Some ''lesson'',
      last_recording_path = Some ''videos/lesson.mp4'', methods_tried = [], calls = []\<rparr>"

text \<open>
  A capture backend that accepts every call and always reports that no recording is
  active; a connected idle controller; a writable output directory; an output path; and a
  file system with no files.
\<close>

definition never_active :: obs_backend where
  "never_active h = (case rev h of GetRecordStatus # _ \<Rightarrow> Resp (Some False) None
                     | _ \<Rightarrow> Resp None None)"

definition idle_connected :: obs_manager where
  "idle_connected =
     \<lparr>is_connected = True, is_recording = False, has_scenes = True,
      recording_path = None, recording_filename = None,
      last_recording_path = None, methods_tried = [], calls = []\<rparr>"

definition writable_dir :: dir_env where
  "writable_dir = \<lparr>parent_exists = True, mkdir_ok = True, dir_writable = True\<rparr>"

definition lesson_path :: py_path where
  "lesson_path = \<lparr>path_parent = ''videos'', path_stem = ''lesson''\<rparr>"

definition empty_fs :: fs_env where
  "empty_fs = \<lparr>os_path_exists = (\<lambda>p. False), os_getsize_ok = (\<lambda>p. True),
               os_path_join = (\<lambda>a b. a @ ''/'' @ b)\<rparr>"

text \<open>
  The names the loop of \<open>rename_recording_file\<close> tries, in order: the desired name, then
  the name with the suffix 1, 2, ...
\<close>

definition candidate_name :: "string \<Rightarrow> nat \<Rightarrow> string" where
  "candidate_name desired_filename k =
     (if k = 0 then desired_filename else suffixed_name desired_filename k)"

text \<open>A directory in which the desired name and its first suffixed name are taken.\<close>

definition lesson_dir :: "path list" where
  "lesson_dir = [(''videos'', ''2024-01-01 10-00-00.mp4''), (''videos'', ''11th_Heat_Main_01-01-2024.mp4''),
                 (''videos'', ''11th_Heat_Main_01-01-2024_1.mp4'')]"

















text \<open>
  The three start strategies as the calls they make, ending with \<open>start_record\<close>:
  directory-then-start, profile-parameter, direct.
\<close>

definition directory_then_start :: "py_path \<Rightarrow> obs_call list" where
  "directory_then_start p = [SetRecordDirectory (path_parent p), StartRecord]"

definition profile_parameter_start :: "py_path \<Rightarrow> obs_call list" where
  "profile_parameter_start p =
     [SetProfileParameter ''Output'' ''RecFilePath'' (path_parent p),
      SetProfileParameter ''Output'' ''RecFormat'' ''mp4'', StartRecord]"

definition direct_start :: "obs_call list" where
  "direct_start = [StartRecord]"

text \<open>
  What an attempt whose calls so far are \<open>h\<close> (the last one \<open>start_record\<close>) comes to,
  read off the backend's answers alone. It verifies when \<open>start_record\<close> returns and the
  status query sent next does not report \<open>output_active\<close> false; a status query that
  raises or has no such attribute counts as active. The status query is sent only when
  \<open>start_record\<close> returned.
\<close>

definition verifies :: "obs_backend \<Rightarrow> obs_call list \<Rightarrow> bool" where
  "verifies B h =
     (case B h of
        Raises \<Rightarrow> False
      | Resp _ _ \<Rightarrow>
          (case B (h @ [GetRecordStatus]) of
             Resp (Some active) _ \<Rightarrow> active
           | _ \<Rightarrow> True))"

definition attempt_calls :: "obs_backend \<Rightarrow> obs_call list \<Rightarrow> obs_call list" where
  "attempt_calls B h = (case B h of Raises \<Rightarrow> h | Resp _ _ \<Rightarrow> h @ [GetRecordStatus])"

text \<open>
  A backend that reports a recording active once the recording format has been set, and one
  that always reports a recording active (and names a file when asked to stop).
\<close>

definition active_after_profile :: obs_backend where
  "active_after_profile h =
     (case rev h of
        GetRecordStatus # cs \<Rightarrow>
          Resp (Some (SetProfileParameter ''Output'' ''RecFormat'' ''mp4'' \<in> set cs)) None
      | _ \<Rightarrow> Resp None None)"

definition always_active :: obs_backend where
  "always_active h =
     (case rev h of
        GetRecordStatus # _ \<Rightarrow> Resp (Some True) None
      | StopRecord # _ \<Rightarrow> Resp None (Some ''videos/earlier.mkv'')
      | _ \<Rightarrow> Resp None None)"

section \<open>Properties of google\_drive\_manager.py\<close>

subsection \<open>get\_or\_create\_folder\<close>
























subsection \<open>upload\_file: the missing local file\<close>

text \<open>
  Claim C9. When the local file does not exist, \<open>upload_file\<close> raises
  \<open>FileNotFoundError\<close> and has sent no request to the storage API: the history of
  requests is the one it started with.
\<close>

theorem upload_file_missing_file:
  "\<not> path_exists env filepath \<Longrightarrow>
     upload_file D env depth fuel filepath class_name chapter_name yr subtopic_name cb h =
       (Some (Inl FileNotFoundError), h, [])"
  by (simp add: upload_file_def)

theorem upload_file_missing_file_witness:
  "\<not> path_exists no_files ''lesson.mp4'' \<and>
   upload_file sim_drive no_files 1 1 ''lesson.mp4'' ''11th'' ''Thermodynamics'' ''2024'' ''Main''
      Callback [] = (Some (Inl FileNotFoundError), [], [])"
  using upload_file_missing_file[of no_files "''lesson.mp4''" sim_drive 1 1 "''11th''"
      "''Thermodynamics''" "''2024''" "''Main''" Callback "[]"]
  by (simp add: no_files_def)

subsection \<open>count\_files\_in\_folder\<close>

lemma count_fold_total:
  assumes step: "\<And>s lg. s \<in> set subs \<Longrightarrow> \<exists>c lg'. count_files_in_folder D depth s ext lg = (Some c, lg')"
  shows "\<exists>n h'. fold (\<lambda>subfolder (total_count, lg).
                             case total_count of
                               None \<Rightarrow> (None, lg)
                             | Some t \<Rightarrow>
                                 (case count_files_in_folder D depth subfolder ext lg of
                                    (None, lg') \<Rightarrow> (None, lg')
                                  | (Some c, lg') \<Rightarrow> (Some (t + c), lg')))
                          subs (Some t0, h0) = (Some n, h')"
  using step
proof (induction subs arbitrary: t0 h0)
  case Nil
  then show ?case by simp
next
  case (Cons s subs)
  from Cons.prems[of s h0] obtain c lg' where c: "count_files_in_folder D depth s ext h0 = (Some c, lg')"
    by auto
  have "\<And>s' lg. s' \<in> set subs \<Longrightarrow> \<exists>c lg'. count_files_in_folder D depth s' ext lg = (Some c, lg')"
    using Cons.prems by simp
  from Cons.IH[OF this, of "t0 + c" lg'] show ?case by (simp add: c)
qed

lemma count_files_returns:
  "folders_descend D rank \<Longrightarrow> rank folder_id < depth \<Longrightarrow>
     \<exists>n h'. count_files_in_folder D depth folder_id ext h = (Some n, h')"
proof (induction depth arbitrary: folder_id h)
  case 0
  then show ?case by simp
next
  case (Suc depth)
  let ?h1 = "h @ [FilesList (files_query folder_id ext)]"
  let ?h2 = "?h1 @ [FilesList (subfolders_query folder_id)]"
  show ?case
  proof (cases "list_resp D ?h1")
    case (Inl e)
    then show ?thesis by (simp add: Let_def)
  next
    case files: (Inr files)
    show ?thesis
    proof (cases "list_resp D ?h2")
      case (Inl e)
      with files show ?thesis by (simp add: Let_def)
    next
      case subs: (Inr subs)
      have "\<forall>s \<in> set subs. rank s < rank folder_id"
        using Suc.prems(1) subs unfolding folders_descend_def by blast
      then have "\<And>s lg. s \<in> set subs \<Longrightarrow>
                  \<exists>c lg'. count_files_in_folder D depth s ext lg = (Some c, lg')"
        using Suc.IH[OF Suc.prems(1)] Suc.prems(2) by (meson less_Suc_eq_le less_le_trans not_less_eq order_less_le_trans)
      from count_fold_total[OF this, of subs "length files" ?h2]
      show ?thesis using files subs by (simp add: Let_def)
    qed
  qed
qed

lemma count_files_first_listing_fails:
  "list_resp D (h @ [FilesList (files_query folder_id ext)]) = Inl e \<Longrightarrow>
     count_files_in_folder D (Suc depth) folder_id ext h =
       (Some 0, h @ [FilesList (files_query folder_id ext)])"
  by (simp add: Let_def)

lemma count_files_second_listing_fails:
  "list_resp D (h @ [FilesList (files_query folder_id ext)]) = Inr files \<Longrightarrow>
   list_resp D (h @ [FilesList (files_query folder_id ext), FilesList (subfolders_query folder_id)]) = Inl e \<Longrightarrow>
     count_files_in_folder D (Suc depth) folder_id ext h =
       (Some 0, h @ [FilesList (files_query folder_id ext), FilesList (subfolders_query folder_id)])"
  by (simp add: Let_def)

text \<open>
  Claim C10. On a well-founded folder hierarchy, and with as many nested calls allowed as
  the hierarchy is deep, \<open>count_files_in_folder\<close> returns a number whatever the
  listings answer; the count of a folder whose file listing or subfolder listing raises
  is 0. No exception leaves the function.
\<close>

theorem count_files_swallows_errors:
  assumes "folders_descend D rank" and "rank folder_id < depth"
  shows "\<exists>n h'. count_files_in_folder D depth folder_id ext h = (Some n, h') \<and>
           ((\<exists>e. list_resp D (h @ [FilesList (files_query folder_id ext)]) = Inl e) \<longrightarrow> n = 0) \<and>
           ((\<exists>e. list_resp D (h @ [FilesList (files_query folder_id ext),
                                  FilesList (subfolders_query folder_id)]) = Inl e) \<longrightarrow> n = 0)"
proof -
  from assms(2) obtain d where d: "depth = Suc d" by (cases depth) auto
  from count_files_returns[OF assms] obtain n h' where
    r: "count_files_in_folder D depth folder_id ext h = (Some n, h')" by blast
  have "n = 0" if "list_resp D (h @ [FilesList (files_query folder_id ext)]) = Inl e" for e
    using r that unfolding d by (simp add: Let_def)
  moreover have "n = 0" if "list_resp D (h @ [FilesList (files_query folder_id ext),
                                  FilesList (subfolders_query folder_id)]) = Inl e" for e
    using r that unfolding d by (simp add: Let_def split: sum.splits)
  ultimately show ?thesis using r by blast
qed

lemma subfolders_query_inj: "subfolders_query a = subfolders_query b \<Longrightarrow> a = b"
  by (simp add: subfolders_query_def quoted_def)

lemma subfolders_query_not_files_query:
  "subfolders_query a \<noteq> files_query b (Some ''mp4'')"
proof
  assume "subfolders_query a = files_query b (Some ''mp4'')"
  then have "last (subfolders_query a) = last (files_query b (Some ''mp4''))" by simp
  then show False by (simp add: subfolders_query_def files_query_def quoted_def truthy_def)
qed

lemma flaky_drive_descends: "folders_descend flaky_drive flaky_rank"
  unfolding folders_descend_def
  by (auto simp: flaky_drive_def flaky_rank_def subfolders_query_not_files_query
           dest: subfolders_query_inj split: if_splits)

lemma flaky_count:
  "count_files_in_folder flaky_drive 2 ''chapter'' (Some ''mp4'') [] =
     (Some 2, [FilesList (files_query ''chapter'' (Some ''mp4'')),
               FilesList (subfolders_query ''chapter''),
               FilesList (files_query ''subtopic'' (Some ''mp4''))])"
proof -
  have ne: "files_query ''chapter'' (Some ''mp4'') \<noteq> subfolders_query ''chapter''"
    using subfolders_query_not_files_query[of "''chapter''" "''chapter''"] by simp
  have ne2: "files_query ''subtopic'' (Some ''mp4'') \<noteq> subfolders_query ''chapter''"
    using subfolders_query_not_files_query[of "''chapter''" "''subtopic''"] by simp
  have ne3: "files_query ''subtopic'' (Some ''mp4'') \<noteq> files_query ''chapter'' (Some ''mp4'')"
    by (simp add: files_query_def quoted_def)
  show ?thesis
    by (simp add: numeral_2_eq_2 Let_def flaky_drive_def ne ne2 ne3)
qed

theorem count_files_swallows_errors_witness:
  "folders_descend flaky_drive flaky_rank \<and> flaky_rank ''chapter'' < 2 \<and>
   count_files_in_folder flaky_drive 2 ''chapter'' (Some ''mp4'') [] =
     (Some 2, [FilesList (files_query ''chapter'' (Some ''mp4'')),
               FilesList (subfolders_query ''chapter''),
               FilesList (files_query ''subtopic'' (Some ''mp4''))]) \<and>
   flaky_rank ''subtopic'' < 1 \<and>
   list_resp flaky_drive ([] @ [FilesList (files_query ''subtopic'' (Some ''mp4''))]) = Inl HttpError \<and>
   fst (count_files_in_folder flaky_drive 1 ''subtopic'' (Some ''mp4'') []) = Some 0"
proof -
  have r1: "flaky_rank ''chapter'' < 2" and r2: "flaky_rank ''subtopic'' < 1"
    by (simp_all add: flaky_rank_def)
  have ne: "files_query ''subtopic'' (Some ''mp4'') \<noteq> subfolders_query ''chapter''"
    using subfolders_query_not_files_query[of "''chapter''" "''subtopic''"] by simp
  have ne3: "files_query ''subtopic'' (Some ''mp4'') \<noteq> files_query ''chapter'' (Some ''mp4'')"
    by (simp add: files_query_def quoted_def)
  have fails: "list_resp flaky_drive ([] @ [FilesList (files_query ''subtopic'' (Some ''mp4''))]) = Inl HttpError"
    by (simp add: flaky_drive_def ne ne3)
  from count_files_swallows_errors[OF flaky_drive_descends r2, of "Some ''mp4''" "[]"] fails
  have "fst (count_files_in_folder flaky_drive 1 ''subtopic'' (Some ''mp4'') []) = Some 0"
    by auto
  moreover from count_files_swallows_errors[OF flaky_drive_descends r1, of "Some ''mp4''" "[]"]
  have "\<exists>n h'. count_files_in_folder flaky_drive 2 ''chapter'' (Some ''mp4'') [] = (Some n, h')"
    by blast
  ultimately show ?thesis using flaky_drive_descends r1 r2 fails flaky_count by simp
qed

subsection \<open>upload\_file: the requests sent and the progress reported\<close>

lemma reported_progress_same: "reported_progress D h h = []"
  by (simp add: reported_progress_def)

lemma reported_progress_step:
  "reported_progress D h (h @ c # rest) =
     (case c of
        NextChunk _ _ \<Rightarrow> (case chunk_resp D (h @ [c]) of Inr (Some p, _) \<Rightarrow> [p] | _ \<Rightarrow> [])
      | _ \<Rightarrow> []) @ reported_progress D (h @ [c]) (h @ c # rest)"
proof -
  have u: "[length h ..< length (h @ c # rest)] =
             length h # [length (h @ [c]) ..< length (h @ c # rest)]"
    by (simp add: upt_conv_Cons del: upt_Suc)
  show ?thesis
    unfolding reported_progress_def u by (cases c) simp_all
qed

lemma reported_progress_skip:
  "(\<forall>n p. NextChunk n p \<notin> set xs) \<Longrightarrow>
     reported_progress D h (h @ xs @ ys) = reported_progress D (h @ xs) (h @ xs @ ys)"
proof (induction xs arbitrary: h)
  case Nil
  then show ?case by simp
next
  case (Cons c xs)
  have "reported_progress D h (h @ c # (xs @ ys)) = reported_progress D (h @ [c]) (h @ c # (xs @ ys))"
    using Cons.prems by (subst reported_progress_step) (cases c; auto)
  also have "\<dots> = reported_progress D ((h @ [c]) @ xs) ((h @ [c]) @ xs @ ys)"
    using Cons.IH[of "h @ [c]"] Cons.prems by simp
  finally show ?case by simp
qed

lemma get_or_create_folder_grows:
  "get_or_create_folder D n p h = (r, h') \<Longrightarrow>
     \<exists>xs. h' = h @ xs \<and> (\<forall>n p. NextChunk n p \<notin> set xs)"
  by (auto simp: get_or_create_folder_def Let_def split: sum.splits list.splits)

lemma count_fold_grows:
  assumes step: "\<And>s lg r lg'. count_files_in_folder D depth s ext lg = (r, lg') \<Longrightarrow>
                    \<exists>xs. lg' = lg @ xs \<and> (\<forall>n p. NextChunk n p \<notin> set xs)"
  shows "fold (\<lambda>subfolder (total_count, lg).
                             case total_count of
                               None \<Rightarrow> (None, lg)
                             | Some t \<Rightarrow>
                                 (case count_files_in_folder D depth subfolder ext lg of
                                    (None, lg') \<Rightarrow> (None, lg')
                                  | (Some c, lg') \<Rightarrow> (Some (t + c), lg')))
                          subs (t0, h0) = (r, h') \<Longrightarrow>
         \<exists>xs. h' = h0 @ xs \<and> (\<forall>n p. NextChunk n p \<notin> set xs)"
proof (induction subs arbitrary: t0 h0)
  case Nil
  then show ?case by simp
next
  case (Cons s subs)
  show ?case
  proof (cases t0)
    case None
    with Cons.prems Cons.IH[of None h0] show ?thesis by simp
  next
    case (Some t)
    obtain c lg where c: "count_files_in_folder D depth s ext h0 = (c, lg)" by (cases "count_files_in_folder D depth s ext h0")
    from step[OF c] obtain xs where xs: "lg = h0 @ xs" "\<forall>n p. NextChunk n p \<notin> set xs" by blast
    have "\<exists>t1. fold (\<lambda>subfolder (total_count, lg).
                             case total_count of
                               None \<Rightarrow> (None, lg)
                             | Some t \<Rightarrow>
                                 (case count_files_in_folder D depth subfolder ext lg of
                                    (None, lg') \<Rightarrow> (None, lg')
                                  | (Some c, lg') \<Rightarrow> (Some (t + c), lg')))
                          subs (t1, lg) = (r, h')"
      using Cons.prems Some c by (cases c) auto
    then obtain t1 where "fold (\<lambda>subfolder (total_count, lg).
                             case total_count of
                               None \<Rightarrow> (None, lg)
                             | Some t \<Rightarrow>
                                 (case count_files_in_folder D depth subfolder ext lg of
                                    (None, lg') \<Rightarrow> (None, lg')
                                  | (Some c, lg') \<Rightarrow> (Some (t + c), lg')))
                          subs (t1, lg) = (r, h')" by blast
    from Cons.IH[OF this] obtain ys where "h' = lg @ ys" "\<forall>n p. NextChunk n p \<notin> set ys" by blast
    with xs have "h' = h0 @ (xs @ ys) \<and> (\<forall>n p. NextChunk n p \<notin> set (xs @ ys))" by simp
    then show ?thesis by blast
  qed
qed

lemma count_files_grows:
  "count_files_in_folder D depth folder_id ext h = (r, h') \<Longrightarrow>
     \<exists>xs. h' = h @ xs \<and> (\<forall>n p. NextChunk n p \<notin> set xs)"
proof (induction depth arbitrary: folder_id h r h')
  case 0
  then show ?case by simp
next
  case (Suc depth)
  let ?h1 = "h @ [FilesList (files_query folder_id ext)]"
  let ?h2 = "?h1 @ [FilesList (subfolders_query folder_id)]"
  show ?case
  proof (cases "list_resp D ?h1")
    case (Inl e)
    with Suc.prems show ?thesis by (auto simp: Let_def)
  next
    case files: (Inr files)
    show ?thesis
    proof (cases "list_resp D ?h2")
      case (Inl e)
      with files Suc.prems show ?thesis by (auto simp: Let_def)
    next
      case subs: (Inr subs)
      have fe: "fold (\<lambda>subfolder (total_count, lg).
                             case total_count of
                               None \<Rightarrow> (None, lg)
                             | Some t \<Rightarrow>
                                 (case count_files_in_folder D depth subfolder ext lg of
                                    (None, lg') \<Rightarrow> (None, lg')
                                  | (Some c, lg') \<Rightarrow> (Some (t + c), lg')))
                          subs (Some (length files), ?h2) = (r, h')"
        using Suc.prems files subs by (simp add: Let_def)
      have step: "\<And>s lg r lg'. count_files_in_folder D depth s ext lg = (r, lg') \<Longrightarrow>
                    \<exists>xs. lg' = lg @ xs \<and> (\<forall>n p. NextChunk n p \<notin> set xs)"
        using Suc.IH by blast
      have "\<exists>xs. h' = ?h2 @ xs \<and> (\<forall>n p. NextChunk n p \<notin> set xs)"
        by (rule count_fold_grows[OF _ fe]) (erule step)
      then obtain xs where
        "h' = ?h2 @ xs" "\<forall>n p. NextChunk n p \<notin> set xs" by blast
      then have "h' = h @ ([FilesList (files_query folder_id ext), FilesList (subfolders_query folder_id)] @ xs)
          \<and> (\<forall>n p. NextChunk n p \<notin> set ([FilesList (files_query folder_id ext), FilesList (subfolders_query folder_id)] @ xs))"
        by simp
      then show ?thesis by blast
    qed
  qed
qed

lemma upload_loop_shape:
  "upload_loop D env cb fuel name parent h tr = (out, h', tr') \<Longrightarrow>
     \<exists>k. h' = h @ replicate k (NextChunk name parent) \<and> (0 < fuel \<longrightarrow> 0 < k)"
proof (induction fuel arbitrary: h tr)
  case 0
  then show ?case by (auto intro: exI[of _ 0])
next
  case (Suc fuel)
  let ?h1 = "h @ [NextChunk name parent]"
  have one: "?h1 = h @ replicate 1 (NextChunk name parent)" by simp
  show ?case
  proof (cases "\<exists>tr1. upload_loop D env cb fuel name parent ?h1 tr1 = (out, h', tr')")
    case True
    then obtain tr1 where "upload_loop D env cb fuel name parent ?h1 tr1 = (out, h', tr')" by blast
    from Suc.IH[OF this] obtain k where "h' = ?h1 @ replicate k (NextChunk name parent)" by blast
    then have "h' = h @ replicate (Suc k) (NextChunk name parent)"
      by (simp add: replicate_app_Cons_same)
    then show ?thesis by blast
  next
    case False
    with Suc.prems have "h' = ?h1"
      by (auto simp: Let_def split: sum.splits prod.splits option.splits callback.splits)
    with one show ?thesis by (metis zero_less_one)
  qed
qed

lemma upload_loop_trace:
  "upload_loop D env Callback fuel name parent h tr = (out, h', tr') \<Longrightarrow>
     tr' = tr @ map (\<lambda>p. py_int (times_100 env p)) (reported_progress D h h')"
proof (induction fuel arbitrary: h tr)
  case 0
  then show ?case by (simp add: reported_progress_same)
next
  case (Suc fuel)
  let ?c = "NextChunk name parent"
  let ?h1 = "h @ [?c]"
  from upload_loop_shape[OF Suc.prems] obtain k where k: "h' = h @ replicate k ?c" "0 < k" by auto
  then obtain j where j: "k = Suc j" by (cases k) auto
  have h': "h' = h @ ?c # replicate j ?c" using k j by simp
  have step: "reported_progress D h h' =
      (case chunk_resp D ?h1 of Inr (Some p, _) \<Rightarrow> [p] | _ \<Rightarrow> []) @ reported_progress D ?h1 h'"
    unfolding h' by (subst reported_progress_step) simp
  show ?case
  proof (cases "chunk_resp D ?h1")
    case (Inl e)
    with Suc.prems have "h' = ?h1" "tr' = tr" by (auto simp: Let_def)
    with Inl step show ?thesis by (simp add: reported_progress_same)
  next
    case (Inr sr)
    obtain status response where sr: "sr = (status, response)" by (cases sr)
    let ?tr1 = "case status of Some p \<Rightarrow> tr @ [py_int (times_100 env p)] | None \<Rightarrow> tr"
    show ?thesis
    proof (cases response)
      case None
      with Inr sr Suc.prems have "upload_loop D env Callback fuel name parent ?h1 ?tr1 = (out, h', tr')"
        by (auto simp: Let_def split: option.splits)
      from Suc.IH[OF this] show ?thesis
        using step Inr sr by (auto split: option.splits)
    next
      case (Some r)
      with Inr sr Suc.prems have "h' = ?h1" "tr' = ?tr1"
        by (auto simp: Let_def split: option.splits)
      with step Inr sr show ?thesis by (auto simp: reported_progress_same split: option.splits)
    qed
  qed
qed

subsection \<open>One upload, evaluated\<close>

lemma lesson_class_year:
  "get_or_create_class_year_folder lesson_drive ''11th'' ''2024'' [] =
     (Inr (Some ''classyear''), [FilesList (folder_query ''11th_2024'' SHARED_FOLDER_ID)])"
  by (simp add: get_or_create_class_year_folder_def get_or_create_folder_def lesson_drive_def
        resolve_parent_def truthy_def Let_def)

lemma lesson_chapter:
  "get_or_create_chapter_folder lesson_drive ''Thermodynamics'' (Some ''classyear'')
       [FilesList (folder_query ''11th_2024'' SHARED_FOLDER_ID)] =
     (Inr (Some ''chapter''), [FilesList (folder_query ''11th_2024'' SHARED_FOLDER_ID),
                FilesList (folder_query ''Thermodynamics'' ''classyear'')])"
  by (simp add: get_or_create_chapter_folder_def get_or_create_folder_def lesson_drive_def
        resolve_parent_def truthy_def Let_def folder_query_def quoted_def)

lemma lesson_subtopic:
  "get_or_create_folder lesson_drive ''Main'' (Some ''chapter'')
       [FilesList (folder_query ''11th_2024'' SHARED_FOLDER_ID),
                FilesList (folder_query ''Thermodynamics'' ''classyear'')] =
     (Inr (Some ''subtopic''), lesson_h3)"
  by (simp add: get_or_create_folder_def lesson_drive_def lesson_h3_def
        resolve_parent_def truthy_def Let_def folder_query_def quoted_def)

lemma lesson_count:
  "count_files_in_folder lesson_drive 2 (py_str (Some ''chapter'')) (Some ''mp4'') lesson_h3 =
     (Some 2, lesson_h4)"
  by (simp add: numeral_2_eq_2 Let_def lesson_drive_def lesson_h3_def lesson_h4_def py_str_def
        folder_query_def files_query_def subfolders_query_def quoted_def truthy_def)


lemma lesson_ext: "snd (splitext (path_seps lesson_env) ''videos/lesson.mp4'') = ''.mp4''"
  by (simp add: splitext_def lesson_env_def Let_def)

lemma lesson_new_filename:
  "new_filename ''11th'' ''Thermodynamics'' ''Main'' \<lparr>d_day = 1, d_month = 1, d_year = 2024\<rparr> 3 ''.mp4''
     = ''11th_Thermodynamics_Main_01-01-2024_Class_3.mp4''"
  by (simp add: new_filename_def strftime_dmy_def zero_pad_def dec.simps)

lemma lesson_loop:
  "upload_loop lesson_drive lesson_env Callback 2 lesson_name (Some ''subtopic'') lesson_h4 [] =
     (Some (Inr (Some ''file1'')),
      lesson_h4 @ [NextChunk lesson_name (Some ''subtopic''), NextChunk lesson_name (Some ''subtopic'')],
      [46])"
  by (simp add: numeral_2_eq_2 Let_def lesson_drive_def lesson_env_def lesson_h3_def lesson_h4_def
        is_chunk_def py_int_def floor_eq_iff)

lemma lesson_upload:
  "upload_file lesson_drive lesson_env 2 2 ''videos/lesson.mp4'' ''11th'' ''Thermodynamics'' ''2024''
      ''Main'' Callback [] =
     (Some (Inr (Some ''file1'')),
      lesson_h4 @ [NextChunk lesson_name (Some ''subtopic''), NextChunk lesson_name (Some ''subtopic'')],
      [46])"
proof -
  have ex: "path_exists lesson_env ''videos/lesson.mp4''" by (simp add: lesson_env_def)
  have td: "today lesson_env = \<lparr>d_day = 1, d_month = 1, d_year = 2024\<rparr>" by (simp add: lesson_env_def)
  have mo: "media_open_ok lesson_env ''videos/lesson.mp4''" by (simp add: lesson_env_def)
  have count': "count_files_in_folder lesson_drive 2 ''chapter'' (Some ''mp4'') lesson_h3 = (Some 2, lesson_h4)"
    using lesson_count by (simp add: py_str_def)
  show ?thesis
    unfolding upload_file_def
    by (simp only: ex mo lesson_class_year lesson_chapter lesson_subtopic count' py_str_def lesson_ext td
          lesson_new_filename Let_def lesson_loop[unfolded lesson_name_def] lesson_name_def
          if_False not_True_eq_False prod.case sum.case option.case One_nat_def[symmetric])
       (simp add: lesson_new_filename[simplified] lesson_loop[unfolded lesson_name_def])
qed

lemma lesson_reported:
  "reported_progress lesson_drive []
     (lesson_h4 @ [NextChunk lesson_name (Some ''subtopic''),
                   NextChunk lesson_name (Some ''subtopic'')]) = [15 / 32]"
proof -
  let ?c = "NextChunk lesson_name (Some ''subtopic'')"
  have n: "\<forall>n p. NextChunk n p \<notin> set lesson_h4" by (simp add: lesson_h4_def lesson_h3_def)
  have c1: "chunk_resp lesson_drive (lesson_h4 @ [?c]) = Inr (Some (15 / 32), None)"
    by (simp add: lesson_drive_def is_chunk_def lesson_h4_def lesson_h3_def)
  have c2: "chunk_resp lesson_drive (lesson_h4 @ [?c, ?c]) = Inr (None, Some (Some ''file1''))"
    by (simp add: lesson_drive_def is_chunk_def lesson_h4_def lesson_h3_def)
  have s2: "reported_progress lesson_drive (lesson_h4 @ [?c]) ((lesson_h4 @ [?c]) @ ?c # []) = []"
    by (subst reported_progress_step) (simp add: c2 reported_progress_same)
  have s1: "reported_progress lesson_drive lesson_h4 (lesson_h4 @ ?c # [?c]) = [15 / 32]"
    by (subst reported_progress_step) (use s2 c1 in simp)
  have "reported_progress lesson_drive [] ([] @ lesson_h4 @ [?c, ?c]) =
        reported_progress lesson_drive ([] @ lesson_h4) ([] @ lesson_h4 @ [?c, ?c])"
    by (rule reported_progress_skip[OF n])
  with s1 show ?thesis by simp
qed

subsection \<open>upload\_file: the remote file name\<close>








text \<open>
  A local file that exists but cannot be opened (a directory, an unreadable file): no chunk
  is sent and no file id is returned.
\<close>

lemma upload_file_cannot_open:
  assumes "path_exists env filepath" and "\<not> media_open_ok env filepath"
    and "upload_file D env depth fuel filepath class_name chapter_name yr subtopic_name cb h =
           (out, h', tr)"
  shows "\<forall>n p. NextChunk n p \<notin> set (drop (length h) h')"
    and "\<forall>fid. out \<noteq> Some (Inr fid)"
proof -
  have "(\<forall>n p. NextChunk n p \<notin> set (drop (length h) h')) \<and> (\<forall>fid. out \<noteq> Some (Inr fid))"
  proof -
    obtain r1 h1 where g1: "get_or_create_class_year_folder D class_name yr h = (r1, h1)"
      by (cases "get_or_create_class_year_folder D class_name yr h")
    from g1 obtain xs1 where x1: "h1 = h @ xs1" "\<forall>n p. NextChunk n p \<notin> set xs1"
      unfolding get_or_create_class_year_folder_def using get_or_create_folder_grows by blast
    show ?thesis
    proof (cases r1)
      case (Inl e)
      with assms g1 x1 show ?thesis by (auto simp: upload_file_def)
    next
      case i1: (Inr cy)
      obtain r2 h2 where g2: "get_or_create_chapter_folder D chapter_name cy h1 = (r2, h2)"
        by (cases "get_or_create_chapter_folder D chapter_name cy h1")
      from g2 obtain xs2 where x2: "h2 = h1 @ xs2" "\<forall>n p. NextChunk n p \<notin> set xs2"
        unfolding get_or_create_chapter_folder_def using get_or_create_folder_grows by blast
      show ?thesis
      proof (cases r2)
        case (Inl e)
        with assms g1 i1 g2 x1 x2 show ?thesis by (auto simp: upload_file_def)
      next
        case i2: (Inr chf)
        obtain r3 h3 where g3: "get_or_create_folder D subtopic_name chf h2 = (r3, h3)"
          by (cases "get_or_create_folder D subtopic_name chf h2")
        from get_or_create_folder_grows[OF g3] obtain xs3 where
          x3: "h3 = h2 @ xs3" "\<forall>n p. NextChunk n p \<notin> set xs3" by blast
        show ?thesis
        proof (cases r3)
          case (Inl e)
          with assms g1 i1 g2 i2 g3 x1 x2 x3 show ?thesis by (auto simp: upload_file_def)
        next
          case i3: (Inr sf)
          obtain r4 h4 where
            g4: "count_files_in_folder D depth (py_str chf) (Some ''mp4'') h3 = (r4, h4)"
            by (cases "count_files_in_folder D depth (py_str chf) (Some ''mp4'') h3")
          from count_files_grows[OF g4] obtain xs4 where
            x4: "h4 = h3 @ xs4" "\<forall>n p. NextChunk n p \<notin> set xs4" by blast
          from assms g1 i1 g2 i2 g3 i3 g4 have "h' = h4" "\<forall>fid. out \<noteq> Some (Inr fid)"
            by (auto simp: upload_file_def Let_def split: option.splits)
          with x1 x2 x3 x4 show ?thesis by auto
        qed
      qed
    qed
  qed
  then show "\<forall>n p. NextChunk n p \<notin> set (drop (length h) h')"
    and "\<forall>fid. out \<noteq> Some (Inr fid)" by blast+
qed







subsection \<open>upload\_file: the progress callback\<close>

lemma py_int_mono: "x \<le> y \<Longrightarrow> py_int x \<le> py_int y"
proof -
  assume xy: "x \<le> y"
  consider "0 \<le> x" | "x < 0" "0 \<le> y" | "y < 0" by linarith
  then show ?thesis
  proof cases
    case 1
    with xy show ?thesis by (simp add: py_int_def floor_mono)
  next
    case 2
    have "\<lceil>x\<rceil> \<le> 0" using 2(1) by (simp add: ceiling_le_iff)
    moreover have "0 \<le> \<lfloor>y\<rfloor>" using 2(2) by simp
    moreover have "py_int x = \<lceil>x\<rceil>" "py_int y = \<lfloor>y\<rfloor>"
      using 2 by (simp_all add: py_int_def)
    ultimately show ?thesis by linarith
  next
    case 3
    with xy show ?thesis by (simp add: py_int_def ceiling_mono)
  qed
qed

lemma py_int_range: "0 \<le> x \<Longrightarrow> x \<le> 100 \<Longrightarrow> 0 \<le> py_int x \<and> py_int x \<le> 100"
  by (simp add: py_int_def floor_le_iff)

lemma upload_file_trace:
  assumes "upload_file D env depth fuel filepath class_name chapter_name yr subtopic_name
             Callback h = (out, h', tr)"
  shows "tr = map (\<lambda>p. py_int (times_100 env p)) (reported_progress D h h')"
proof (cases "path_exists env filepath")
  case False
  then have "upload_file D env depth fuel filepath class_name chapter_name yr subtopic_name
             Callback h = (Some (Inl FileNotFoundError), h, [])" by (simp add: upload_file_def)
  with assms show ?thesis by (simp add: reported_progress_same)
next
  case ex: True
  obtain r1 h1 where g1: "get_or_create_class_year_folder D class_name yr h = (r1, h1)"
    by (cases "get_or_create_class_year_folder D class_name yr h")
  from g1 obtain xs1 where x1: "h1 = h @ xs1" "\<forall>n p. NextChunk n p \<notin> set xs1"
    unfolding get_or_create_class_year_folder_def using get_or_create_folder_grows by blast
  show ?thesis
  proof (cases r1)
    case (Inl e)
    with ex g1 have "upload_file D env depth fuel filepath class_name chapter_name yr subtopic_name
             Callback h = (Some (Inl e), h1, [])" by (simp add: upload_file_def)
    with assms x1 have "tr = []" "h' = h @ xs1 @ []" by simp_all
    then show ?thesis
      using reported_progress_skip[OF x1(2), of D h "[]"] by (simp add: reported_progress_same)
  next
    case i1: (Inr cy)
    obtain r2 h2 where g2: "get_or_create_chapter_folder D chapter_name cy h1 = (r2, h2)"
      by (cases "get_or_create_chapter_folder D chapter_name cy h1")
    from g2 obtain xs2 where x2: "h2 = h1 @ xs2" "\<forall>n p. NextChunk n p \<notin> set xs2"
      unfolding get_or_create_chapter_folder_def using get_or_create_folder_grows by blast
    have n2: "\<forall>n p. NextChunk n p \<notin> set (xs1 @ xs2)" using x1 x2 by simp
    show ?thesis
    proof (cases r2)
      case (Inl e)
      with ex g1 i1 g2 have "upload_file D env depth fuel filepath class_name chapter_name yr
             subtopic_name Callback h = (Some (Inl e), h2, [])" by (simp add: upload_file_def)
      with assms x1 x2 have "tr = []" "h' = h @ (xs1 @ xs2) @ []" by simp_all
      then show ?thesis
        using reported_progress_skip[OF n2, of D h "[]"] by (simp add: reported_progress_same)
    next
      case i2: (Inr chf)
      obtain r3 h3 where g3: "get_or_create_folder D subtopic_name chf h2 = (r3, h3)"
        by (cases "get_or_create_folder D subtopic_name chf h2")
      from get_or_create_folder_grows[OF g3] obtain xs3 where
        x3: "h3 = h2 @ xs3" "\<forall>n p. NextChunk n p \<notin> set xs3" by blast
      have n3: "\<forall>n p. NextChunk n p \<notin> set (xs1 @ xs2 @ xs3)" using x1 x2 x3 by simp
      show ?thesis
      proof (cases r3)
        case (Inl e)
        with ex g1 i1 g2 i2 g3 have "upload_file D env depth fuel filepath class_name chapter_name
               yr subtopic_name Callback h = (Some (Inl e), h3, [])" by (simp add: upload_file_def)
        with assms x1 x2 x3 have "tr = []" "h' = h @ (xs1 @ xs2 @ xs3) @ []" by simp_all
        then show ?thesis
          using reported_progress_skip[OF n3, of D h "[]"] by (simp add: reported_progress_same)
      next
        case i3: (Inr sf)
        obtain r4 h4 where g4: "count_files_in_folder D depth (py_str chf) (Some ''mp4'') h3 = (r4, h4)"
          by (cases "count_files_in_folder D depth (py_str chf) (Some ''mp4'') h3")
        from count_files_grows[OF g4] obtain xs4 where
          x4: "h4 = h3 @ xs4" "\<forall>n p. NextChunk n p \<notin> set xs4" by blast
        have n4: "\<forall>n p. NextChunk n p \<notin> set (xs1 @ xs2 @ xs3 @ xs4)" using x1 x2 x3 x4 by simp
        have h4: "h4 = h @ (xs1 @ xs2 @ xs3 @ xs4)" using x1 x2 x3 x4 by simp
        show ?thesis
        proof (cases r4)
          case None
          with ex g1 i1 g2 i2 g3 i3 g4 have "upload_file D env depth fuel filepath class_name
                 chapter_name yr subtopic_name Callback h = (None, h4, [])"
            by (simp add: upload_file_def)
          with assms h4 have "tr = []" "h' = h @ (xs1 @ xs2 @ xs3 @ xs4) @ []" by simp_all
          then show ?thesis
            using reported_progress_skip[OF n4, of D h "[]"] by (simp add: reported_progress_same)
        next
          case (Some file_count)
          let ?name = "new_filename class_name chapter_name subtopic_name (today env)
                         (file_count + 1) (snd (splitext (path_seps env) filepath))"
          show ?thesis
          proof (cases "media_open_ok env filepath")
            case False
            with ex g1 i1 g2 i2 g3 i3 g4 Some
            have "upload_file D env depth fuel filepath class_name chapter_name yr subtopic_name
                    Callback h = (Some (Inl OSError), h4, [])"
              by (simp add: upload_file_def Let_def)
            with assms h4 have "tr = []" "h' = h @ (xs1 @ xs2 @ xs3 @ xs4) @ []" by simp_all
            then show ?thesis
              using reported_progress_skip[OF n4, of D h "[]"]
              by (simp add: reported_progress_same)
          next
            case mo: True
            have loop: "upload_loop D env Callback fuel ?name sf h4 [] = (out, h', tr)"
              using assms ex g1 i1 g2 i2 g3 i3 g4 Some mo by (simp add: upload_file_def Let_def)
            from upload_loop_shape[OF loop] obtain k where
              k: "h' = h4 @ replicate k (NextChunk ?name sf)" by blast
            from upload_loop_trace[OF loop]
            have "tr = map (\<lambda>p. py_int (times_100 env p)) (reported_progress D h4 h')" by simp
            moreover have "reported_progress D h h' = reported_progress D h4 h'"
              using reported_progress_skip[OF n4, of D h "replicate k (NextChunk ?name sf)"] k h4
              by simp
            ultimately show ?thesis by simp
          qed
        qed
      qed
    qed
  qed
qed

text \<open>
  Claim C7, as the code has it. During a successful upload the callback receives, for every
  chunk that reported a progress \<open>p\<close>, the value \<open>int(p * 100)\<close>: the product truncated,
  not rounded. The values lie in [0,100] when the reported progress lies in [0,1], and they
  are non-decreasing when the reported progress is. The last value is the truncation of the
  last reported progress; nothing makes it 100.
\<close>

theorem progress_callback_values:
  assumes run: "upload_file D env depth fuel filepath class_name chapter_name yr subtopic_name
                  Callback h = (Some (Inr file_id), h', tr)"
    and range: "\<forall>p. 0 \<le> p \<and> p \<le> 1 \<longrightarrow> 0 \<le> times_100 env p \<and> times_100 env p \<le> 100"
    and mono: "\<forall>p q. p \<le> q \<longrightarrow> times_100 env p \<le> times_100 env q"
  shows "tr = map (\<lambda>p. py_int (times_100 env p)) (reported_progress D h h') \<and>
         ((\<forall>p \<in> set (reported_progress D h h'). 0 \<le> p \<and> p \<le> 1) \<longrightarrow>
            (\<forall>v \<in> set tr. 0 \<le> v \<and> v \<le> 100)) \<and>
         (sorted (reported_progress D h h') \<longrightarrow> sorted tr)"
proof -
  let ?f = "\<lambda>p. py_int (times_100 env p)"
  let ?rp = "reported_progress D h h'"
  have tr: "tr = map ?f ?rp" by (rule upload_file_trace[OF run])
  have "\<forall>v \<in> set tr. 0 \<le> v \<and> v \<le> 100" if "\<forall>p \<in> set ?rp. 0 \<le> p \<and> p \<le> 1"
    using that range py_int_range unfolding tr by auto
  moreover have "sorted tr" if "sorted ?rp"
  proof -
    have "sorted_wrt (\<lambda>x y. ?f x \<le> ?f y) ?rp"
      using that mono py_int_mono by (auto elim!: sorted_wrt_mono_rel[rotated])
    then show ?thesis unfolding tr by (simp add: sorted_map)
  qed
  ultimately show ?thesis using tr by blast
qed

theorem progress_callback_values_witness:
  "upload_file lesson_drive lesson_env 2 2 ''videos/lesson.mp4'' ''11th'' ''Thermodynamics''
      ''2024'' ''Main'' Callback [] =
     (Some (Inr (Some ''file1'')),
      lesson_h4 @ [NextChunk lesson_name (Some ''subtopic''),
                   NextChunk lesson_name (Some ''subtopic'')], [46]) \<and>
   reported_progress lesson_drive []
     (lesson_h4 @ [NextChunk lesson_name (Some ''subtopic''),
                   NextChunk lesson_name (Some ''subtopic'')]) = [15 / 32] \<and>
   [46] = map (\<lambda>p. py_int (times_100 lesson_env p)) [15 / 32] \<and>
   (0 :: rat) \<le> 15 / 32 \<and> (15 / 32 :: rat) \<le> 1 \<and> (0 :: int) \<le> 46 \<and> (46 :: int) \<le> 100 \<and>
   sorted [15 / 32 :: rat] \<and> sorted [46 :: int]"
proof -
  have range: "\<forall>p. 0 \<le> p \<and> p \<le> 1 \<longrightarrow> 0 \<le> times_100 lesson_env p \<and> times_100 lesson_env p \<le> 100"
    by (simp add: lesson_env_def)
  have mono: "\<forall>p q. p \<le> q \<longrightarrow> times_100 lesson_env p \<le> times_100 lesson_env q"
    by (simp add: lesson_env_def)
  from progress_callback_values[OF lesson_upload range mono]
  have "[46] = map (\<lambda>p. py_int (times_100 lesson_env p)) [15 / 32]"
    by (simp add: lesson_reported)
  then show ?thesis using lesson_upload lesson_reported by simp
qed

text \<open>
  The claim as written fails on the upload above: the upload succeeds, its one chunk
  status reports 15/32, the callback receives 46 where \<open>round(15/32 * 100)\<close> is 47, and
  46 is also the last value received.
\<close>

theorem progress_callback_counterexample:
  "fst (upload_file lesson_drive lesson_env 2 2 ''videos/lesson.mp4'' ''11th'' ''Thermodynamics''
          ''2024'' ''Main'' Callback []) = Some (Inr (Some ''file1'')) \<and>
   snd (snd (upload_file lesson_drive lesson_env 2 2 ''videos/lesson.mp4'' ''11th''
               ''Thermodynamics'' ''2024'' ''Main'' Callback [])) = [46] \<and>
   reported_progress lesson_drive []
     (fst (snd (upload_file lesson_drive lesson_env 2 2 ''videos/lesson.mp4'' ''11th''
                  ''Thermodynamics'' ''2024'' ''Main'' Callback []))) = [15 / 32] \<and>
   py_round (15 / 32 * 100) = 47"
proof -
  have fl: "\<lfloor>375 / 8 :: rat\<rfloor> = 46" by (simp add: floor_eq_iff)
  have "py_round (15 / 32 * 100) = 47" by (simp add: py_round_def Let_def fl)
  then show ?thesis by (simp add: lesson_upload lesson_reported)
qed

section \<open>Properties of obs\_manager.py\<close>

subsection \<open>upload\_last\_recording\<close>

text \<open>
  Claim C4. \<open>upload_last_recording\<close> returns \<open>None\<close> in every state and sends nothing to the
  storage API. When \<open>last_recording_path\<close> is set and names an existing file, the reason is
  the call of \<open>upload_file\<close> with the path alone: binding one positional argument to a
  signature with four required parameters raises \<open>TypeError\<close>, which the handler turns
  into \<open>None\<close>.
\<close>

theorem upload_last_recording_returns_none:
  "upload_last_recording D env depth fuel st h = (Some None, h) \<and>
   (truthy (last_recording_path st) \<and> path_exists env (the (last_recording_path st)) \<longrightarrow>
      upload_file_positional D env depth fuel [the (last_recording_path st)] h =
        (Some (Inl TypeError), h, []))"
  by (simp add: upload_last_recording_def upload_file_positional_def)

theorem upload_last_recording_returns_none_witness:
  "truthy (last_recording_path lesson_recorded) \<and>
   path_exists lesson_env (the (last_recording_path lesson_recorded)) \<and>
   upload_last_recording lesson_drive lesson_env 2 2 lesson_recorded [] = (Some None, []) \<and>
   upload_file_positional lesson_drive lesson_env 2 2
     [the (last_recording_path lesson_recorded)] [] = (Some (Inl TypeError), [], [])"
  using upload_last_recording_returns_none[of lesson_drive lesson_env 2 2 lesson_recorded "[]"]
  by (simp add: lesson_recorded_def lesson_env_def truthy_def)

subsection \<open>start\_recording\<close>

text \<open>
  A method verifies exactly when \<open>start_record\<close> returns and the status query that
  follows does not report \<open>output_active\<close> false.
\<close>

lemma start_and_verify_true_iff:
  "fst (start_and_verify B st) \<longleftrightarrow>
     B (calls st @ [StartRecord]) \<noteq> Raises \<and>
     (\<forall>p. B (calls st @ [StartRecord, GetRecordStatus]) \<noteq> Resp (Some False) p)"
  by (auto simp: start_and_verify_def check_recording_status_def client_call_def
           split: obs_resp.splits option.splits bool.splits)

lemma start_and_verify_exact:
  assumes "methods_tried st = xs @ [(m, False)]"
  shows "fst (start_and_verify B st) = verifies B (calls st @ [StartRecord]) \<and>
         calls (snd (start_and_verify B st)) = attempt_calls B (calls st @ [StartRecord]) \<and>
         methods_tried (snd (start_and_verify B st)) =
           xs @ [(m, verifies B (calls st @ [StartRecord]))] \<and>
         is_recording (snd (start_and_verify B st)) =
           (verifies B (calls st @ [StartRecord]) \<or> is_recording st) \<and>
         is_connected (snd (start_and_verify B st)) = is_connected st"
  using assms
  by (auto simp: start_and_verify_def check_recording_status_def client_call_def
        method_succeeded_def verifies_def attempt_calls_def
        split: obs_resp.splits option.splits bool.splits)

lemma try_recording_method_1_exact:
  "fst (try_recording_method_1 B p st) = verifies B (calls st @ directory_then_start p) \<and>
   calls (snd (try_recording_method_1 B p st)) =
     attempt_calls B (calls st @ directory_then_start p) \<and>
   methods_tried (snd (try_recording_method_1 B p st)) =
     methods_tried st @ [(''SetOutputDirectory'', verifies B (calls st @ directory_then_start p))] \<and>
   is_recording (snd (try_recording_method_1 B p st)) =
     (verifies B (calls st @ directory_then_start p) \<or> is_recording st)"
proof -
  let ?st1 = "snd (client_call B (SetRecordDirectory (path_parent p))
                     (begin_method ''SetOutputDirectory'' st))"
  have mt: "methods_tried ?st1 = methods_tried st @ [(''SetOutputDirectory'', False)]"
    by (simp add: client_call_def begin_method_def)
  have c: "calls ?st1 @ [StartRecord] = calls st @ directory_then_start p"
    and r: "is_recording ?st1 = is_recording st"
    by (simp_all add: client_call_def begin_method_def directory_then_start_def)
  from start_and_verify_exact[OF mt, of B] show ?thesis
    unfolding c r by (simp add: try_recording_method_1_def Let_def)
qed

lemma try_recording_method_2_exact:
  "fst (try_recording_method_2 B p st) = verifies B (calls st @ profile_parameter_start p) \<and>
   calls (snd (try_recording_method_2 B p st)) =
     attempt_calls B (calls st @ profile_parameter_start p) \<and>
   methods_tried (snd (try_recording_method_2 B p st)) =
     methods_tried st @ [(''ProfileParameters'', verifies B (calls st @ profile_parameter_start p))] \<and>
   is_recording (snd (try_recording_method_2 B p st)) =
     (verifies B (calls st @ profile_parameter_start p) \<or> is_recording st)"
proof -
  let ?st2 = "snd (client_call B (SetProfileParameter ''Output'' ''RecFormat'' ''mp4'')
                (snd (client_call B
                  (SetProfileParameter ''Output'' ''RecFilePath'' (path_parent p))
                  (begin_method ''ProfileParameters'' st))))"
  have mt: "methods_tried ?st2 = methods_tried st @ [(''ProfileParameters'', False)]"
    by (simp add: client_call_def begin_method_def)
  have c: "calls ?st2 @ [StartRecord] = calls st @ profile_parameter_start p"
    and r: "is_recording ?st2 = is_recording st"
    by (simp_all add: client_call_def begin_method_def profile_parameter_start_def)
  from start_and_verify_exact[OF mt, of B] show ?thesis
    unfolding c r by (simp add: try_recording_method_2_def Let_def)
qed

lemma try_recording_method_3_exact:
  "fst (try_recording_method_3 B p st) = verifies B (calls st @ direct_start) \<and>
   calls (snd (try_recording_method_3 B p st)) = attempt_calls B (calls st @ direct_start) \<and>
   methods_tried (snd (try_recording_method_3 B p st)) =
     methods_tried st @ [(''DirectStart'', verifies B (calls st @ direct_start))] \<and>
   is_recording (snd (try_recording_method_3 B p st)) =
     (verifies B (calls st @ direct_start) \<or> is_recording st)"
proof -
  let ?st0 = "begin_method ''DirectStart'' st"
  have mt: "methods_tried ?st0 = methods_tried st @ [(''DirectStart'', False)]"
    by (simp add: begin_method_def)
  have c: "calls ?st0 @ [StartRecord] = calls st @ direct_start"
    and r: "is_recording ?st0 = is_recording st"
    by (simp_all add: begin_method_def direct_start_def)
  from start_and_verify_exact[OF mt, of B] show ?thesis
    unfolding c r by (simp add: try_recording_method_3_def)
qed

lemma stop_existing_exact:
  "calls (stop_existing B st) =
     calls st @ GetRecordStatus #
       (case B (calls st @ [GetRecordStatus]) of
          Resp (Some True) _ \<Rightarrow> [StopRecord]
        | _ \<Rightarrow> []) \<and>
   methods_tried (stop_existing B st) = methods_tried st"
  by (auto simp: stop_existing_def client_call_def
           split: obs_resp.splits option.splits bool.splits)

text \<open>
  Claim C1. On a connected controller whose output directory exists (or can be created)
  and is writable, \<open>start_recording\<close> returns \<open>True\<close> and leaves \<open>is_recording\<close> set.
  After the status query (and the stop of a recording already running) it makes the calls
  of directory-then-start; if that attempt verifies, nothing more is called. Otherwise it
  makes the calls of the profile-parameter strategy, and only if that does not verify
  either, the direct start. Which attempt verifies is decided by the backend's answers to
  \<open>start_record\<close> and to the status query after it. The methods recorded as tried, with
  their outcomes, are those attempts in this order. When none of the three verifies the
  flag is set and \<open>True\<close> returned all the same.
\<close>

theorem start_recording_strategy_order:
  assumes conn: "is_connected st"
    and dir: "parent_exists env \<or> mkdir_ok env"
    and wr: "dir_writable env"
    and h0: "h0 = calls st @ GetRecordStatus #
                    (case B (calls st @ [GetRecordStatus]) of
                       Resp (Some True) _ \<Rightarrow> [StopRecord]
                     | _ \<Rightarrow> [])"
    and h1: "h1 = h0 @ [SetRecordDirectory (path_parent output_path), StartRecord]"
    and h2: "h2 = attempt_calls B h1 @
                    [SetProfileParameter ''Output'' ''RecFilePath'' (path_parent output_path),
                     SetProfileParameter ''Output'' ''RecFormat'' ''mp4'', StartRecord]"
    and h3: "h3 = attempt_calls B h2 @ [StartRecord]"
  shows "fst (start_recording B env output_path st) \<and>
         is_recording (snd (start_recording B env output_path st)) \<and>
         calls (snd (start_recording B env output_path st)) =
           (if verifies B h1 then attempt_calls B h1
            else if verifies B h2 then attempt_calls B h2
            else attempt_calls B h3) \<and>
         methods_tried (snd (start_recording B env output_path st)) =
           (if verifies B h1 then [(''SetOutputDirectory'', True)]
            else if verifies B h2
              then [(''SetOutputDirectory'', False), (''ProfileParameters'', True)]
            else [(''SetOutputDirectory'', False), (''ProfileParameters'', False),
                  (''DirectStart'', verifies B h3)])"
proof -
  let ?st1 = "st\<lparr>has_scenes := True, methods_tried := [],
                 recording_filename := Some (path_stem output_path),
                 recording_path := Some (path_parent output_path)\<rparr>"
  let ?st2 = "stop_existing B ?st1"
  let ?r1 = "try_recording_method_1 B output_path ?st2"
  let ?r2 = "try_recording_method_2 B output_path (snd ?r1)"
  let ?r3 = "try_recording_method_3 B output_path (snd ?r2)"
  have s2: "calls ?st2 = h0" "methods_tried ?st2 = []"
    using stop_existing_exact[of B ?st1] unfolding h0 by simp_all
  have e1: "fst ?r1 = verifies B h1" "calls (snd ?r1) = attempt_calls B h1"
    "methods_tried (snd ?r1) = [(''SetOutputDirectory'', verifies B h1)]"
    "verifies B h1 \<Longrightarrow> is_recording (snd ?r1)"
    using try_recording_method_1_exact[of B output_path ?st2]
    unfolding s2 h1 directory_then_start_def by simp_all
  have e2: "fst ?r2 = verifies B h2" "calls (snd ?r2) = attempt_calls B h2"
    "methods_tried (snd ?r2) =
       [(''SetOutputDirectory'', verifies B h1), (''ProfileParameters'', verifies B h2)]"
    "verifies B h2 \<Longrightarrow> is_recording (snd ?r2)"
    using try_recording_method_2_exact[of B output_path "snd ?r1"]
    unfolding e1 h2 profile_parameter_start_def by simp_all
  have e3: "fst ?r3 = verifies B h3" "calls (snd ?r3) = attempt_calls B h3"
    "methods_tried (snd ?r3) =
       [(''SetOutputDirectory'', verifies B h1), (''ProfileParameters'', verifies B h2),
        (''DirectStart'', verifies B h3)]"
    "verifies B h3 \<Longrightarrow> is_recording (snd ?r3)"
    using try_recording_method_3_exact[of B output_path "snd ?r2"]
    unfolding e2 h3 direct_start_def by simp_all
  have run: "start_recording B env output_path st =
               (if fst ?r1 then (True, snd ?r1)
                else if fst ?r2 then (True, snd ?r2)
                else if fst ?r3 then (True, snd ?r3)
                else (True, (snd ?r3)\<lparr>is_recording := True\<rparr>))"
    using conn dir wr
    by (auto simp: start_recording_def Let_def split: prod.splits bool.splits)
  show ?thesis
    unfolding run e1(1) e2(1) e3(1)
    using e1(2-) e2(2-) e3(2-) by (cases "verifies B h3") auto
qed

lemma never_active_run:
  "start_recording never_active writable_dir lesson_path idle_connected =
     (True,
      \<lparr>is_connected = True, is_recording = True, has_scenes = True,
       recording_path = Some ''videos'', recording_filename = Some ''lesson'',
       last_recording_path = None,
       methods_tried = [(''SetOutputDirectory'', False), (''ProfileParameters'', False),
                        (''DirectStart'', False)],
       calls = [GetRecordStatus,
                SetRecordDirectory ''videos'', StartRecord, GetRecordStatus,
                SetProfileParameter ''Output'' ''RecFilePath'' ''videos'',
                SetProfileParameter ''Output'' ''RecFormat'' ''mp4'', StartRecord, GetRecordStatus,
                StartRecord, GetRecordStatus]\<rparr>)"
  by (simp add: start_recording_def stop_existing_def try_recording_method_1_def
        try_recording_method_2_def try_recording_method_3_def start_and_verify_def
        check_recording_status_def client_call_def begin_method_def method_succeeded_def
        never_active_def idle_connected_def writable_dir_def lesson_path_def Let_def)

theorem start_recording_strategy_order_witness:
  "is_connected idle_connected \<and> (parent_exists writable_dir \<or> mkdir_ok writable_dir) \<and>
   dir_writable writable_dir \<and>
   fst (start_recording never_active writable_dir lesson_path idle_connected) \<and>
   is_recording (snd (start_recording never_active writable_dir lesson_path idle_connected)) \<and>
   calls (snd (start_recording never_active writable_dir lesson_path idle_connected)) =
     [GetRecordStatus,
      SetRecordDirectory ''videos'', StartRecord, GetRecordStatus,
      SetProfileParameter ''Output'' ''RecFilePath'' ''videos'',
      SetProfileParameter ''Output'' ''RecFormat'' ''mp4'', StartRecord, GetRecordStatus,
      StartRecord, GetRecordStatus] \<and>
   methods_tried (snd (start_recording never_active writable_dir lesson_path idle_connected)) =
     [(''SetOutputDirectory'', False), (''ProfileParameters'', False), (''DirectStart'', False)] \<and>
   fst (start_recording active_after_profile writable_dir lesson_path idle_connected) \<and>
   is_recording
     (snd (start_recording active_after_profile writable_dir lesson_path idle_connected)) \<and>
   calls (snd (start_recording active_after_profile writable_dir lesson_path idle_connected)) =
     [GetRecordStatus,
      SetRecordDirectory ''videos'', StartRecord, GetRecordStatus,
      SetProfileParameter ''Output'' ''RecFilePath'' ''videos'',
      SetProfileParameter ''Output'' ''RecFormat'' ''mp4'', StartRecord, GetRecordStatus] \<and>
   methods_tried
     (snd (start_recording active_after_profile writable_dir lesson_path idle_connected)) =
     [(''SetOutputDirectory'', False), (''ProfileParameters'', True)] \<and>
   fst (start_recording always_active writable_dir lesson_path idle_connected) \<and>
   is_recording (snd (start_recording always_active writable_dir lesson_path idle_connected)) \<and>
   calls (snd (start_recording always_active writable_dir lesson_path idle_connected)) =
     [GetRecordStatus, StopRecord,
      SetRecordDirectory ''videos'', StartRecord, GetRecordStatus] \<and>
   methods_tried (snd (start_recording always_active writable_dir lesson_path idle_connected)) =
     [(''SetOutputDirectory'', True)]"
proof -
  have c: "is_connected idle_connected" by (simp add: idle_connected_def)
  have d: "parent_exists writable_dir \<or> mkdir_ok writable_dir" by (simp add: writable_dir_def)
  have w: "dir_writable writable_dir" by (simp add: writable_dir_def)
  note run = start_recording_strategy_order[OF c d w refl refl refl refl]
  have none: "fst (start_recording never_active writable_dir lesson_path idle_connected) \<and>
   is_recording (snd (start_recording never_active writable_dir lesson_path idle_connected)) \<and>
   calls (snd (start_recording never_active writable_dir lesson_path idle_connected)) =
     [GetRecordStatus,
      SetRecordDirectory ''videos'', StartRecord, GetRecordStatus,
      SetProfileParameter ''Output'' ''RecFilePath'' ''videos'',
      SetProfileParameter ''Output'' ''RecFormat'' ''mp4'', StartRecord, GetRecordStatus,
      StartRecord, GetRecordStatus] \<and>
   methods_tried (snd (start_recording never_active writable_dir lesson_path idle_connected)) =
     [(''SetOutputDirectory'', False), (''ProfileParameters'', False), (''DirectStart'', False)]"
    using run[of never_active lesson_path]
    by (simp add: verifies_def attempt_calls_def never_active_def idle_connected_def
          lesson_path_def)
  have second: "fst (start_recording active_after_profile writable_dir lesson_path idle_connected) \<and>
   is_recording
     (snd (start_recording active_after_profile writable_dir lesson_path idle_connected)) \<and>
   calls (snd (start_recording active_after_profile writable_dir lesson_path idle_connected)) =
     [GetRecordStatus,
      SetRecordDirectory ''videos'', StartRecord, GetRecordStatus,
      SetProfileParameter ''Output'' ''RecFilePath'' ''videos'',
      SetProfileParameter ''Output'' ''RecFormat'' ''mp4'', StartRecord, GetRecordStatus] \<and>
   methods_tried
     (snd (start_recording active_after_profile writable_dir lesson_path idle_connected)) =
     [(''SetOutputDirectory'', False), (''ProfileParameters'', True)]"
    using run[of active_after_profile lesson_path]
    by (simp add: verifies_def attempt_calls_def active_after_profile_def idle_connected_def
          lesson_path_def)
  have first: "fst (start_recording always_active writable_dir lesson_path idle_connected) \<and>
   is_recording (snd (start_recording always_active writable_dir lesson_path idle_connected)) \<and>
   calls (snd (start_recording always_active writable_dir lesson_path idle_connected)) =
     [GetRecordStatus, StopRecord,
      SetRecordDirectory ''videos'', StartRecord, GetRecordStatus] \<and>
   methods_tried (snd (start_recording always_active writable_dir lesson_path idle_connected)) =
     [(''SetOutputDirectory'', True)]"
    using run[of always_active lesson_path]
    by (simp add: verifies_def attempt_calls_def always_active_def idle_connected_def
          lesson_path_def)
  from c d w none second first show ?thesis by blast
qed

subsection \<open>stop\_recording\<close>

lemma check_recording_output_exists_frame:
  "is_recording (check_recording_output_exists fs st) = is_recording st"
  by (simp add: check_recording_output_exists_def split: option.splits)

text \<open>
  Claim C2, as the code has it. On a connected controller \<open>is_recording\<close> is false after
  \<open>stop_recording\<close>, whatever the backend answers or raises and whichever exit the call
  takes. On a controller that is not connected \<open>stop_recording\<close> returns \<open>False\<close> at
  once: no call is made and the state, \<open>is_recording\<close> included, is unchanged.
\<close>

theorem stop_recording_clears_flag:
  "(is_connected st \<longrightarrow> \<not> is_recording (snd (stop_recording B fs st))) \<and>
   (\<not> is_connected st \<longrightarrow> stop_recording B fs st = (False, st))"
  by (auto simp: stop_recording_def client_call_def Let_def check_recording_output_exists_frame
           split: prod.splits obs_resp.splits option.splits bool.splits)

theorem stop_recording_clears_flag_witness:
  "is_connected (snd (start_recording never_active writable_dir lesson_path idle_connected)) \<and>
   is_recording (snd (start_recording never_active writable_dir lesson_path idle_connected)) \<and>
   \<not> is_recording (snd (stop_recording never_active empty_fs
        (snd (start_recording never_active writable_dir lesson_path idle_connected)))) \<and>
   \<not> is_connected (disconnect idle_connected) \<and>
   stop_recording never_active empty_fs (disconnect idle_connected) =
     (False, disconnect idle_connected)"
proof -
  let ?rec = "snd (start_recording never_active writable_dir lesson_path idle_connected)"
  have c: "is_connected ?rec" and r: "is_recording ?rec"
    by (simp_all add: never_active_run)
  have d: "\<not> is_connected (disconnect idle_connected)"
    by (simp add: disconnect_def)
  from stop_recording_clears_flag[of ?rec never_active empty_fs] c
  have stopped: "\<not> is_recording (snd (stop_recording never_active empty_fs ?rec))"
    by blast
  from stop_recording_clears_flag[of "disconnect idle_connected" never_active empty_fs] d
  have refused: "stop_recording never_active empty_fs (disconnect idle_connected) =
                   (False, disconnect idle_connected)"
    by blast
  from c r stopped d refused show ?thesis by blast
qed

text \<open>
  The claim as written fails for a controller that was disconnected while recording:
  after \<open>start_recording\<close> and \<open>disconnect\<close>, \<open>stop_recording\<close> leaves \<open>is_recording\<close>
  true.
\<close>

theorem stop_recording_counterexample:
  "is_recording (snd (stop_recording never_active empty_fs
      (disconnect (snd (start_recording never_active writable_dir lesson_path idle_connected)))))"
  by (simp add: never_active_run disconnect_def stop_recording_def)

section \<open>Properties of rename\_recording\_file\<close>

lemma resolve_target_least:
  "\<exists>k. resolve_target files target_dir desired target_path counter =
          (if k = 0 then target_path else (target_dir, suffixed_name desired (counter + k - 1))) \<and>
        (0 < k \<longrightarrow> target_path \<in> set files) \<and>
        (\<forall>j. counter \<le> j \<and> j < counter + k - 1 \<longrightarrow>
             (target_dir, suffixed_name desired j) \<in> set files) \<and>
        resolve_target files target_dir desired target_path counter \<notin> set files"
proof (induction files target_dir desired target_path counter rule: resolve_target.induct)
  case (1 files target_dir desired target_path counter)
  show ?case
  proof (cases "target_path \<in> set files")
    case False
    then have "resolve_target files target_dir desired target_path counter = target_path"
      by (subst resolve_target.simps) simp
    with False show ?thesis by (intro exI[of _ 0]) auto
  next
    case True
    let ?next = "(target_dir, suffixed_name desired counter)"
    have unfold: "resolve_target files target_dir desired target_path counter =
                  resolve_target files target_dir desired ?next (Suc counter)"
      using True by (subst resolve_target.simps) simp
    from "1.IH"[OF True] obtain k where
      k: "resolve_target files target_dir desired ?next (Suc counter) =
            (if k = 0 then ?next else (target_dir, suffixed_name desired (Suc counter + k - 1)))"
         "0 < k \<longrightarrow> ?next \<in> set files"
         "\<forall>j. Suc counter \<le> j \<and> j < Suc counter + k - 1 \<longrightarrow>
              (target_dir, suffixed_name desired j) \<in> set files"
         "resolve_target files target_dir desired ?next (Suc counter) \<notin> set files"
      by blast
    have a: "resolve_target files target_dir desired target_path counter =
               (target_dir, suffixed_name desired (counter + Suc k - 1))"
      using unfold k(1) by (cases k) simp_all
    have b: "(target_dir, suffixed_name desired j) \<in> set files"
      if "counter \<le> j" "j < counter + Suc k - 1" for j
    proof (cases "j = counter")
      case True
      with that k(2) show ?thesis by (cases k) simp_all
    next
      case False
      with that k(3) show ?thesis by (cases k) simp_all
    qed
    show ?thesis
      using a b True k(4) unfold by (intro exI[of _ "Suc k"]) simp
  qed
qed

lemma rsplit_dot_ext:
  "CHR ''.'' \<notin> set ext \<Longrightarrow> rsplit_dot (stem @ ''.'' @ ext) = [stem, ext]"
proof -
  assume nodot: "CHR ''.'' \<notin> set ext"
  then have t: "takeWhile (\<lambda>c. c \<noteq> CHR ''.'') (rev ext) = rev ext"
    by (auto simp: takeWhile_eq_all_conv)
  have "takeWhile (\<lambda>c. c \<noteq> CHR ''.'') (rev (stem @ ''.'' @ ext)) = rev ext"
    by (simp add: takeWhile_tail t)
  then show ?thesis by (simp add: rsplit_dot_def Let_def)
qed

text \<open>
  Claim C8. When the recording file exists and the rename succeeds, the file is renamed
  within its own directory to the first free name among the desired name, the desired
  name with \<open>_1\<close> before the extension, with \<open>_2\<close>, and so on: every earlier name of
  that sequence is taken and the chosen one is free. A suffixed name keeps the extension
  of the desired name: \<open>stem.ext\<close> becomes \<open>stem_k.ext\<close>.
\<close>

theorem rename_recording_file_resolves:
  assumes "actual_path \<in> set files"
  shows "\<exists>k. rename_recording_file files True desired_filename actual_path =
               (Renamed (fst actual_path, candidate_name desired_filename k),
                (fst actual_path, candidate_name desired_filename k) #
                  removeAll actual_path files) \<and>
             (fst actual_path, candidate_name desired_filename k) \<notin> set files \<and>
             (\<forall>j < k. (fst actual_path, candidate_name desired_filename j) \<in> set files) \<and>
             (\<forall>stem ext. desired_filename = stem @ ''.'' @ ext \<and> CHR ''.'' \<notin> set ext \<and> 0 < k \<longrightarrow>
                candidate_name desired_filename k = stem @ ''_'' @ dec k @ ''.'' @ ext)"
proof -
  let ?dir = "fst actual_path"
  from resolve_target_least[of files ?dir desired_filename "(?dir, desired_filename)" 1]
  obtain k where
    k: "resolve_target files ?dir desired_filename (?dir, desired_filename) 1 =
          (if k = 0 then (?dir, desired_filename)
           else (?dir, suffixed_name desired_filename (1 + k - 1)))"
       "0 < k \<longrightarrow> (?dir, desired_filename) \<in> set files"
       "\<forall>j. 1 \<le> j \<and> j < 1 + k - 1 \<longrightarrow> (?dir, suffixed_name desired_filename j) \<in> set files"
       "resolve_target files ?dir desired_filename (?dir, desired_filename) 1 \<notin> set files"
    by blast
  have r: "resolve_target files ?dir desired_filename (?dir, desired_filename) 1 =
             (?dir, candidate_name desired_filename k)"
    using k(1) by (simp add: candidate_name_def)
  have below: "(?dir, candidate_name desired_filename j) \<in> set files" if "j < k" for j
    using that k(2,3) by (cases "j = 0") (auto simp: candidate_name_def)
  have ext: "candidate_name desired_filename k = stem @ ''_'' @ dec k @ ''.'' @ ext"
    if "desired_filename = stem @ ''.'' @ ext" "CHR ''.'' \<notin> set ext" "0 < k" for stem ext
    using that rsplit_dot_ext[of ext stem] by (simp add: candidate_name_def suffixed_name_def)
  have "rename_recording_file files True desired_filename actual_path =
               (Renamed (?dir, candidate_name desired_filename k),
                (?dir, candidate_name desired_filename k) # removeAll actual_path files)"
    using assms r by (simp add: rename_recording_file_def Let_def)
  moreover have "(?dir, candidate_name desired_filename k) \<notin> set files"
    using k(4) r by simp
  ultimately show ?thesis using below ext by blast
qed

lemma lesson_dir_resolve:
  "resolve_target lesson_dir ''videos'' ''11th_Heat_Main_01-01-2024.mp4''
     (''videos'', ''11th_Heat_Main_01-01-2024.mp4'') 1 =
   (''videos'', ''11th_Heat_Main_01-01-2024_2.mp4'')"
  by (simp add: resolve_target.simps lesson_dir_def suffixed_name_def rsplit_dot_def dec.simps
        Let_def)

theorem rename_recording_file_resolves_witness:
  "(''videos'', ''2024-01-01 10-00-00.mp4'') \<in> set lesson_dir \<and>
   rename_recording_file lesson_dir True ''11th_Heat_Main_01-01-2024.mp4''
       (''videos'', ''2024-01-01 10-00-00.mp4'') =
     (Renamed (''videos'', ''11th_Heat_Main_01-01-2024_2.mp4''),
      [(''videos'', ''11th_Heat_Main_01-01-2024_2.mp4''),
       (''videos'', ''11th_Heat_Main_01-01-2024.mp4''),
       (''videos'', ''11th_Heat_Main_01-01-2024_1.mp4'')])"
proof -
  have src: "(''videos'', ''2024-01-01 10-00-00.mp4'') \<in> set lesson_dir"
    by (simp add: lesson_dir_def)
  from rename_recording_file_resolves[OF src, of "''11th_Heat_Main_01-01-2024.mp4''"]
  obtain k where "rename_recording_file lesson_dir True ''11th_Heat_Main_01-01-2024.mp4''
       (''videos'', ''2024-01-01 10-00-00.mp4'') =
     (Renamed (fst (''videos'', ''2024-01-01 10-00-00.mp4''),
               candidate_name ''11th_Heat_Main_01-01-2024.mp4'' k),
      (fst (''videos'', ''2024-01-01 10-00-00.mp4''),
       candidate_name ''11th_Heat_Main_01-01-2024.mp4'' k) #
        removeAll (''videos'', ''2024-01-01 10-00-00.mp4'') lesson_dir)"
    by blast
  moreover have "rename_recording_file lesson_dir True ''11th_Heat_Main_01-01-2024.mp4''
       (''videos'', ''2024-01-01 10-00-00.mp4'') =
     (Renamed (''videos'', ''11th_Heat_Main_01-01-2024_2.mp4''),
      (''videos'', ''11th_Heat_Main_01-01-2024_2.mp4'') #
        removeAll (''videos'', ''2024-01-01 10-00-00.mp4'') lesson_dir)"
    using src by (simp add: rename_recording_file_def Let_def lesson_dir_resolve[simplified])
  ultimately show ?thesis using src by (simp add: lesson_dir_def)
qed

end
